theory Spec2Isabelle
  imports Complex_Main
begin

section \<open>Python primitives used by the services\<close>

text \<open>
  A Python \<open>str\<close> is modelled as a \<open>string\<close>: one \<open>char\<close> per code point, for the code
  points 0 to 255.  Python integers are \<open>int\<close>.  An exception that leaves a function is a
  value \<open>Inl e\<close> of a sum type.
\<close>

datatype py_error = IndexError | ValueError | RecursionError | MemoryError

definition ebind :: "'e + 'a \<Rightarrow> ('a \<Rightarrow> 'e + 'b) \<Rightarrow> 'e + 'b" where
  "ebind m f = (case m of Inl e \<Rightarrow> Inl e | Inr x \<Rightarrow> f x)"

text \<open>\<open>xs[i:j]\<close>: a negative bound counts from the end, and both bounds are clipped.\<close>

definition slice_bound :: "nat \<Rightarrow> int \<Rightarrow> nat" where
  "slice_bound n i = (if i < 0 then nat (max 0 (int n + i)) else min n (nat i))"

definition py_slice :: "'a list \<Rightarrow> int \<Rightarrow> int \<Rightarrow> 'a list" where
  "py_slice xs i j = take (slice_bound (length xs) j - slice_bound (length xs) i)
                          (drop (slice_bound (length xs) i) xs)"

text \<open>\<open>str.isspace\<close> on one character, which is also the class \<open>\s\<close> of \<open>re\<close>.\<close>

definition isspace :: "char \<Rightarrow> bool" where
  "isspace c = (let n = (of_char c :: nat) in
     (9 \<le> n \<and> n \<le> 13) \<or> (28 \<le> n \<and> n \<le> 32) \<or> n = 133 \<or> n = 160)"

text \<open>The line boundaries of \<open>str.splitlines\<close> (a \<open>\r\n\<close> pair is one boundary).\<close>

definition is_linebreak :: "char \<Rightarrow> bool" where
  "is_linebreak c = (let n = (of_char c :: nat) in
     (10 \<le> n \<and> n \<le> 13) \<or> (28 \<le> n \<and> n \<le> 30) \<or> n = 133)"

fun splitlines_from :: "string \<Rightarrow> string \<Rightarrow> string list" where
  "splitlines_from cur [] = (if cur = [] then [] else [rev cur])"
| "splitlines_from cur (c # cs) =
     (if c = CHR 0x0D \<and> cs \<noteq> [] \<and> hd cs = CHR 0x0A then rev cur # splitlines_from [] (tl cs)
      else if is_linebreak c then rev cur # splitlines_from [] cs
      else splitlines_from (c # cur) cs)"

definition splitlines :: "string \<Rightarrow> string list" where
  "splitlines s = splitlines_from [] s"

text \<open>\<open>"\n".join(xs)\<close>\<close>

fun join_nl :: "string list \<Rightarrow> string" where
  "join_nl [] = []"
| "join_nl [x] = x"
| "join_nl (x # y # ys) = x @ CHR 0x0A # join_nl (y # ys)"

definition lstrip :: "string \<Rightarrow> string" where
  "lstrip s = dropWhile isspace s"

definition rstrip :: "string \<Rightarrow> string" where
  "rstrip s = rev (dropWhile isspace (rev s))"

definition strip :: "string \<Rightarrow> string" where
  "strip s = rstrip (lstrip s)"

text \<open>\<open>str(n)\<close> for an integer: decimal digits, with a minus sign for a negative number.\<close>

definition digit_char :: "nat \<Rightarrow> char" where
  "digit_char d = ''0123456789'' ! d"

fun digits :: "nat \<Rightarrow> string" where
  "digits n = (if n < 10 then [digit_char n] else digits (n div 10) @ [digit_char (n mod 10)])"

definition str_int :: "int \<Rightarrow> string" where
  "str_int i = (if i < 0 then CHR ''-'' # digits (nat (- i)) else digits (nat i))"

declare digits.simps [simp del]

section \<open>Configuration (\<open>app/config.py\<close>)\<close>

text \<open>
  The fields of \<open>Settings\<close> that the chunker and the retriever read.  They are loaded from
  the environment, so every integer is a possible value.
\<close>

record settings =
  MAX_CHUNK_LINES :: int
  FALLBACK_CHUNK_LINES :: int
  DEFAULT_TOP_K :: int

definition default_settings :: settings where
  "default_settings = \<lparr>MAX_CHUNK_LINES = 200, FALLBACK_CHUNK_LINES = 150, DEFAULT_TOP_K = 20\<rparr>"

section \<open>Chunking (\<open>app/services/chunking.py\<close>)\<close>

record CodeChunk =
  file_path :: string
  symbol :: string
  code :: string
  language :: string
  start_line :: int
  end_line :: int

subsection \<open>Fixed-window fallback: \<open>_chunk_by_lines\<close>\<close>

text \<open>The chunk appended by one iteration of the \<open>while\<close> loop, at window start \<open>i\<close>.\<close>

definition block_chunk :: "string \<Rightarrow> string \<Rightarrow> string list \<Rightarrow> int \<Rightarrow> int \<Rightarrow> int \<Rightarrow> CodeChunk" where
  "block_chunk fp lang lines window i idx =
     \<lparr>file_path = fp,
      symbol = ''<block_'' @ str_int idx @ ''>'',
      code = join_nl (py_slice lines i (min (i + window) (int (length lines)))),
      language = lang,
      start_line = i + 1,
      end_line = min (i + window) (int (length lines))\<rparr>"

text \<open>
  The \<open>while i < len(lines)\<close> loop.  It need not terminate: \<open>None\<close> is the run that never
  leaves the loop.
\<close>

partial_function (option) chunk_by_lines_loop ::
  "string \<Rightarrow> string \<Rightarrow> string list \<Rightarrow> int \<Rightarrow> int \<Rightarrow> int \<Rightarrow> int \<Rightarrow> CodeChunk list \<Rightarrow> CodeChunk list option"
where
  "chunk_by_lines_loop fp lang lines window overlap i idx chunks =
     (if i < int (length lines)
      then chunk_by_lines_loop fp lang lines window overlap (i + (window - overlap)) (idx + 1)
             (chunks @ [block_chunk fp lang lines window i idx])
      else Some chunks)"

declare chunk_by_lines_loop.simps [code]

definition chunk_by_lines :: "settings \<Rightarrow> string \<Rightarrow> string \<Rightarrow> string \<Rightarrow> CodeChunk list option" where
  "chunk_by_lines st fp content lang =
     (let lines = splitlines content in
      if lines = [] then Some []
      else if int (length lines) \<le> MAX_CHUNK_LINES st then
        Some [\<lparr>file_path = fp, symbol = ''<file>'', code = content, language = lang,
               start_line = 1, end_line = int (length lines)\<rparr>]
      else chunk_by_lines_loop fp lang lines (FALLBACK_CHUNK_LINES st) 20 0 0 [])"

subsection \<open>Structured chunking of Python: \<open>_chunk_python\<close>\<close>

text \<open>
  The part of a syntax tree that \<open>_chunk_python\<close> looks at: for a node, whether it is a
  \<open>FunctionDef\<close>, an \<open>AsyncFunctionDef\<close>, a \<open>ClassDef\<close> or anything else, its \<open>name\<close>,
  \<open>lineno\<close> and \<open>end_lineno\<close>, and for a class the nodes that \<open>ast.iter_child_nodes\<close> yields.
  The parser itself belongs to the Python library; it is a parameter \<open>ast_parse\<close>.  A call
  of \<open>ast.parse\<close> has one of three outcomes: it returns a tree, of which \<open>Parsed\<close> holds the
  list \<open>ast.iter_child_nodes(tree)\<close>; it raises \<open>SyntaxError\<close>, which \<open>_chunk_python\<close> catches;
  or it raises another exception (\<open>RecursionError\<close> or \<open>MemoryError\<close> on deeply nested
  source, \<open>ValueError\<close> on a null byte), which \<open>_chunk_python\<close> does not catch.
\<close>

datatype py_node =
    FunctionDef (name: string) (lineno: int) (end_lineno: "int option")
  | AsyncFunctionDef (name: string) (lineno: int) (end_lineno: "int option")
  | ClassDef (name: string) (lineno: int) (end_lineno: "int option") (children: "py_node list")
  | OtherNode

datatype parse_outcome = Parsed "py_node list" | SyntaxError | ParseRaises py_error

fun is_function :: "py_node \<Rightarrow> bool" where
  "is_function (FunctionDef _ _ _) = True"
| "is_function (AsyncFunctionDef _ _ _) = True"
| "is_function _ = False"

fun is_function_or_class :: "py_node \<Rightarrow> bool" where
  "is_function_or_class (ClassDef _ _ _ _) = True"
| "is_function_or_class n = is_function n"

text \<open>\<open>node.end_lineno or start\<close>\<close>

definition end_or :: "int option \<Rightarrow> int \<Rightarrow> int" where
  "end_or e start = (case e of None \<Rightarrow> start | Some v \<Rightarrow> if v = 0 then start else v)"

definition line_chunk :: "string \<Rightarrow> string \<Rightarrow> string list \<Rightarrow> int \<Rightarrow> int \<Rightarrow> CodeChunk" where
  "line_chunk fp symb lines start endl =
     \<lparr>file_path = fp, symbol = symb, code = join_nl (py_slice lines (start - 1) endl),
      language = ''python'', start_line = start, end_line = endl\<rparr>"

definition first_node_line :: "py_node list \<Rightarrow> int option" where
  "first_node_line nodes = map_option lineno (find is_function_or_class nodes)"

definition python_preamble :: "string \<Rightarrow> string list \<Rightarrow> py_node list \<Rightarrow> CodeChunk list" where
  "python_preamble fp lines nodes =
     (case first_node_line nodes of
        None \<Rightarrow> []
      | Some l \<Rightarrow>
          if l \<noteq> 0 \<and> l > 1 then
            (let preamble = strip (join_nl (py_slice lines 0 (l - 1))) in
             if preamble \<noteq> [] \<and> length (splitlines preamble) \<ge> 3 then
               [\<lparr>file_path = fp, symbol = ''<module>'', code = preamble, language = ''python'',
                 start_line = 1, end_line = l - 1\<rparr>]
             else [])
          else [])"

definition class_header_end :: "int \<Rightarrow> py_node list \<Rightarrow> int" where
  "class_header_end start cs =
     (case find is_function cs of None \<Rightarrow> start | Some child \<Rightarrow> lineno child - 1)"

definition method_chunk :: "string \<Rightarrow> string list \<Rightarrow> string \<Rightarrow> py_node \<Rightarrow> CodeChunk" where
  "method_chunk fp lines cname child =
     line_chunk fp (cname @ ''.'' @ name child) lines (lineno child)
       (end_or (end_lineno child) (lineno child))"

definition split_class :: "string \<Rightarrow> string list \<Rightarrow> string \<Rightarrow> int \<Rightarrow> py_node list \<Rightarrow> CodeChunk list" where
  "split_class fp lines cname start cs =
     (let header = join_nl (py_slice lines (start - 1) (class_header_end start cs)) in
      (if strip header \<noteq> [] then
         [\<lparr>file_path = fp, symbol = cname @ ''.<header>'', code = header, language = ''python'',
           start_line = start, end_line = class_header_end start cs\<rparr>]
       else [])
      @ map (method_chunk fp lines cname) (filter is_function cs))"

text \<open>The chunks that one iteration of the loop over the top-level nodes appends.\<close>

fun node_chunks :: "settings \<Rightarrow> string \<Rightarrow> string list \<Rightarrow> py_node \<Rightarrow> CodeChunk list" where
  "node_chunks st fp lines (FunctionDef nm start e) = [line_chunk fp nm lines start (end_or e start)]"
| "node_chunks st fp lines (AsyncFunctionDef nm start e) = [line_chunk fp nm lines start (end_or e start)]"
| "node_chunks st fp lines (ClassDef nm start e cs) =
     (if end_or e start - start \<le> MAX_CHUNK_LINES st
      then [line_chunk fp nm lines start (end_or e start)]
      else split_class fp lines nm start cs)"
| "node_chunks st fp lines OtherNode = []"

definition chunk_python ::
  "settings \<Rightarrow> (string \<Rightarrow> parse_outcome) \<Rightarrow> string \<Rightarrow> string \<Rightarrow> py_error + CodeChunk list" where
  "chunk_python st ast_parse fp content =
     (let lines = splitlines content in
      case ast_parse content of
        SyntaxError \<Rightarrow> Inr []
      | ParseRaises e \<Rightarrow> Inl e
      | Parsed nodes \<Rightarrow>
          Inr (python_preamble fp lines nodes @ concat (map (node_chunks st fp lines) nodes)))"

subsection \<open>Heuristic chunking of JavaScript and TypeScript: \<open>_chunk_javascript\<close>\<close>

text \<open>
  The regular expressions of the module, as data.  Every repetition in them is over a single
  character class, so the matcher needs no general star.  \<open>rx_match r s\<close> lists what is left
  of \<open>s\<close> after each way of matching \<open>r\<close> at its start, in the order in which the
  backtracking engine of \<open>re\<close> tries them (greedy repetitions and options first).
\<close>

datatype rx =
    Lit string
  | Cls "char \<Rightarrow> bool"
  | Star "char \<Rightarrow> bool"
  | Plus "char \<Rightarrow> bool"
  | Seq rx rx
  | Alt rx rx
  | Opt rx

fun rx_match :: "rx \<Rightarrow> string \<Rightarrow> string list" where
  "rx_match (Lit w) s = (if take (length w) s = w then [drop (length w) s] else [])"
| "rx_match (Cls p) s = (case s of [] \<Rightarrow> [] | c # cs \<Rightarrow> if p c then [cs] else [])"
| "rx_match (Star p) s = map (\<lambda>n. drop n s) (rev [0..<Suc (length (takeWhile p s))])"
| "rx_match (Plus p) s = map (\<lambda>n. drop n s) (rev [1..<Suc (length (takeWhile p s))])"
| "rx_match (Seq a b) s = concat (map (rx_match b) (rx_match a s))"
| "rx_match (Alt a b) s = rx_match a s @ rx_match b s"
| "rx_match (Opt a) s = rx_match a s @ [s]"

fun seqs :: "rx list \<Rightarrow> rx" where
  "seqs [] = Lit []"
| "seqs [r] = r"
| "seqs (r # rs) = Seq r (seqs rs)"

text \<open>The class \<open>\w\<close>: the characters with \<open>str.isalnum\<close>, and the underscore.\<close>

definition is_word :: "char \<Rightarrow> bool" where
  "is_word c = (let n = (of_char c :: nat) in
     (48 \<le> n \<and> n \<le> 57) \<or> (65 \<le> n \<and> n \<le> 90) \<or> n = 95 \<or> (97 \<le> n \<and> n \<le> 122) \<or>
     n = 170 \<or> n = 178 \<or> n = 179 \<or> n = 181 \<or> n = 185 \<or> n = 186 \<or> (188 \<le> n \<and> n \<le> 190) \<or>
     (192 \<le> n \<and> n \<le> 214) \<or> (216 \<le> n \<and> n \<le> 246) \<or> 248 \<le> n)"

definition ws1 :: rx where "ws1 = Plus isspace"

text \<open>\<open>_JS_PATTERNS\<close>, in the order of the source.  \<open>pattern.match(line)\<close> anchors at the start
  of the line, where the leading \<open>^\<close> holds.\<close>

definition js_pattern_export_function :: rx where
  "js_pattern_export_function =
     seqs [Lit ''export'', ws1, Opt (Seq (Lit ''default'') ws1), Opt (Seq (Lit ''async'') ws1),
           Lit ''function'', ws1, Plus is_word]"

definition js_pattern_function :: rx where
  "js_pattern_function = seqs [Opt (Seq (Lit ''async'') ws1), Lit ''function'', ws1, Plus is_word]"

definition js_pattern_arrow :: rx where
  "js_pattern_arrow =
     seqs [Opt (Seq (Lit ''export'') ws1), Alt (Lit ''const'') (Alt (Lit ''let'') (Lit ''var'')),
           ws1, Plus is_word, Star isspace, Lit ''='', Star isspace, Opt (Seq (Lit ''async'') ws1),
           Alt (seqs [Lit ''('', Star (\<lambda>c. c \<noteq> CHR '')''), Lit '')'']) (Cls (\<lambda>c. c \<noteq> CHR ''='')),
           Star isspace, Lit ''=>'']"

definition js_pattern_class :: rx where
  "js_pattern_class =
     seqs [Opt (seqs [Lit ''export'', ws1, Opt (Seq (Lit ''default'') ws1)]), Lit ''class'', ws1,
           Plus is_word]"

definition JS_PATTERNS :: "rx list" where
  "JS_PATTERNS = [js_pattern_export_function, js_pattern_function, js_pattern_arrow, js_pattern_class]"

definition js_is_boundary :: "string \<Rightarrow> bool" where
  "js_is_boundary line = list_ex (\<lambda>pattern. rx_match pattern line \<noteq> []) JS_PATTERNS"

text \<open>
  \<open>_extract_js_symbol\<close>: each of its patterns is a prefix followed by the group \<open>(\w+)\<close>.
  \<open>re.search\<close> tries the start positions from left to right; at one position the group is
  the longest run of word characters after the first way of matching the prefix that is
  followed by one.
\<close>

definition rx_group_at :: "rx \<Rightarrow> string \<Rightarrow> string option" where
  "rx_group_at r s =
     (case filter (\<lambda>w. w \<noteq> []) (map (takeWhile is_word) (rx_match r s)) of
        [] \<Rightarrow> None | w # _ \<Rightarrow> Some w)"

fun rx_search_group :: "rx \<Rightarrow> string \<Rightarrow> string option" where
  "rx_search_group r [] = rx_group_at r []"
| "rx_search_group r (c # cs) =
     (case rx_group_at r (c # cs) of Some w \<Rightarrow> Some w | None \<Rightarrow> rx_search_group r cs)"

definition js_symbol_function :: rx where
  "js_symbol_function =
     seqs [Opt (seqs [Lit ''export'', ws1, Opt (Seq (Lit ''default'') ws1)]),
           Opt (Seq (Lit ''async'') ws1), Lit ''function'', ws1]"

definition js_symbol_variable :: rx where
  "js_symbol_variable =
     seqs [Opt (Seq (Lit ''export'') ws1), Alt (Lit ''const'') (Alt (Lit ''let'') (Lit ''var'')), ws1]"

definition js_symbol_class :: rx where
  "js_symbol_class =
     seqs [Opt (seqs [Lit ''export'', ws1, Opt (Seq (Lit ''default'') ws1)]), Lit ''class'', ws1]"

definition extract_js_symbol :: "string \<Rightarrow> string" where
  "extract_js_symbol line =
     (case rx_search_group js_symbol_function line of
        Some w \<Rightarrow> w
      | None \<Rightarrow>
         (case rx_search_group js_symbol_variable line of
            Some w \<Rightarrow> w
          | None \<Rightarrow>
             (case rx_search_group js_symbol_class line of
                Some w \<Rightarrow> w
              | None \<Rightarrow> ''<anonymous>'')))"

definition js_boundaries :: "string list \<Rightarrow> (nat \<times> string) list" where
  "js_boundaries lines =
     map (\<lambda>(i, line). (i, extract_js_symbol line))
         (filter (\<lambda>(i, line). js_is_boundary line) (zip [0..<length lines] lines))"

definition js_preamble :: "string \<Rightarrow> string \<Rightarrow> string list \<Rightarrow> nat \<Rightarrow> CodeChunk list" where
  "js_preamble fp lang lines first =
     (if first > 0 then
        (let preamble = strip (join_nl (py_slice lines 0 (int first))) in
         if preamble \<noteq> [] \<and> length (splitlines preamble) \<ge> 2 then
           [\<lparr>file_path = fp, symbol = ''<imports>'', code = preamble, language = lang,
             start_line = 1, end_line = int first\<rparr>]
         else [])
      else [])"

text \<open>The loop over the boundaries: a chunk runs to the line before the next boundary, or
  to the last line.\<close>

fun js_boundary_chunks :: "string \<Rightarrow> string \<Rightarrow> string list \<Rightarrow> (nat \<times> string) list \<Rightarrow> CodeChunk list" where
  "js_boundary_chunks fp lang lines [] = []"
| "js_boundary_chunks fp lang lines ((line_idx, symb) # rest) =
     (let start = int line_idx;
          endl = (case rest of [] \<Rightarrow> int (length lines) - 1 | (nxt, _) # _ \<Rightarrow> int nxt - 1);
          code = rstrip (join_nl (py_slice lines start (endl + 1)))
      in (if strip code \<noteq> [] then
            [\<lparr>file_path = fp, symbol = symb, code = code, language = lang,
              start_line = start + 1, end_line = endl + 1\<rparr>]
          else [])
         @ js_boundary_chunks fp lang lines rest)"

definition chunk_javascript :: "string \<Rightarrow> string \<Rightarrow> string \<Rightarrow> CodeChunk list" where
  "chunk_javascript fp content lang =
     (let lines = splitlines content in
      if lines = [] then []
      else (case js_boundaries lines of
              [] \<Rightarrow> []
            | (first, s0) # rest \<Rightarrow>
                js_preamble fp lang lines first
                @ js_boundary_chunks fp lang lines ((first, s0) # rest)))"

subsection \<open>\<open>chunk_file\<close>\<close>

text \<open>
  The result of \<open>chunk_file\<close>: \<open>None\<close> when the call never returns, \<open>Some (Inl e)\<close> when the
  exception \<open>e\<close> leaves it, \<open>Some (Inr chunks)\<close> when it returns \<open>chunks\<close>.
  \<open>chunk_file_fallthrough\<close> is the rest of the function after the Python strategy: the
  JS/TS strategy, then the fallback.
\<close>

definition chunk_file_fallthrough ::
  "settings \<Rightarrow> string \<Rightarrow> string \<Rightarrow> string \<Rightarrow> (py_error + CodeChunk list) option" where
  "chunk_file_fallthrough st fp content lang =
     (if (lang = ''javascript'' \<or> lang = ''typescript'') \<and> chunk_javascript fp content lang \<noteq> [] then
        Some (Inr (chunk_javascript fp content lang))
      else map_option Inr (chunk_by_lines st fp content lang))"

definition chunk_file ::
  "settings \<Rightarrow> (string \<Rightarrow> parse_outcome) \<Rightarrow> string \<Rightarrow> string \<Rightarrow> string
     \<Rightarrow> (py_error + CodeChunk list) option" where
  "chunk_file st ast_parse fp content lang =
     (if lang = ''python'' then
        (case chunk_python st ast_parse fp content of
           Inl e \<Rightarrow> Some (Inl e)
         | Inr chunks \<Rightarrow>
             if chunks \<noteq> [] then Some (Inr chunks)
             else chunk_file_fallthrough st fp content lang)
      else chunk_file_fallthrough st fp content lang)"

section \<open>Vector store (\<open>app/services/vector_store.py\<close>)\<close>

text \<open>
  A metadata dictionary has the keys that the ingestion writes; each may be absent.
  A collection is the dictionary of four lists.  The store is the module's cache
  \<open>_collections\<close> together with the files on disk, one per project, each holding a collection
  as \<open>_save_collection\<close> writes it.  The \<open>float32\<close> arithmetic of NumPy is modelled by exact
  arithmetic on \<open>real\<close>; rounding is not modelled.
\<close>

record metadata =
  m_file_path :: "string option"
  m_symbol :: "string option"
  m_language :: "string option"
  m_start_line :: "int option"
  m_end_line :: "int option"

record collection =
  ids :: "string list"
  documents :: "string list"
  embeddings :: "real list list"
  metadatas :: "metadata list"

definition empty_collection :: collection where
  "empty_collection = \<lparr>ids = [], documents = [], embeddings = [], metadatas = []\<rparr>"

record store =
  collections :: "int \<rightharpoonup> collection"
  files :: "int \<rightharpoonup> collection"

definition load_collection :: "store \<Rightarrow> int \<Rightarrow> collection \<times> store" where
  "load_collection s project_id =
     (case collections s project_id of
        Some c \<Rightarrow> (c, s)
      | None \<Rightarrow>
         (case files s project_id of
            Some d \<Rightarrow> (d, s\<lparr>collections := (collections s)(project_id \<mapsto> d)\<rparr>)
          | None \<Rightarrow> (empty_collection, s\<lparr>collections := (collections s)(project_id \<mapsto> empty_collection)\<rparr>)))"

text \<open>
  \<open>_save_collection\<close> writes the cached collection.  Its only caller is \<open>add_chunks\<close>, after
  \<open>_load_collection\<close> has cached the project, so the default of \<open>_collections.get\<close> is never
  used; the model leaves the file as it is there.
\<close>

definition save_collection :: "store \<Rightarrow> int \<Rightarrow> store" where
  "save_collection s project_id =
     (case collections s project_id of
        Some c \<Rightarrow> s\<lparr>files := (files s)(project_id \<mapsto> c)\<rparr>
      | None \<Rightarrow> s)"

text \<open>\<open>add_chunks\<close> extends the four lists of the cached dictionary in place, then saves.\<close>

definition extend_collection ::
  "collection \<Rightarrow> string list \<Rightarrow> string list \<Rightarrow> real list list \<Rightarrow> metadata list \<Rightarrow> collection" where
  "extend_collection c new_ids new_documents new_embeddings new_metadatas =
     \<lparr>ids = ids c @ new_ids, documents = documents c @ new_documents,
      embeddings = embeddings c @ new_embeddings, metadatas = metadatas c @ new_metadatas\<rparr>"

definition add_chunks ::
  "store \<Rightarrow> int \<Rightarrow> string list \<Rightarrow> string list \<Rightarrow> real list list \<Rightarrow> metadata list \<Rightarrow> store" where
  "add_chunks s project_id new_ids new_documents new_embeddings new_metadatas =
     (let (c, s1) = load_collection s project_id;
          s2 = s1\<lparr>collections := (collections s1)(project_id \<mapsto>
                  extend_collection c new_ids new_documents new_embeddings new_metadatas)\<rparr>
      in save_collection s2 project_id)"

definition delete_collection :: "store \<Rightarrow> int \<Rightarrow> store" where
  "delete_collection s project_id =
     s\<lparr>files := (files s)(project_id := None), collections := (collections s)(project_id := None)\<rparr>"

subsection \<open>Cosine similarity and ranking\<close>

definition l2_norm :: "real list \<Rightarrow> real" where
  "l2_norm v = sqrt (sum_list (map (\<lambda>x. x * x) v))"

definition epsilon :: real where
  "epsilon = 1 / 10 ^ 10"

definition normalize :: "real list \<Rightarrow> real list" where
  "normalize v = map (\<lambda>x. x / (l2_norm v + epsilon)) v"

definition dot :: "real list \<Rightarrow> real list \<Rightarrow> real" where
  "dot u v = sum_list (map2 (*) u v)"

definition similarities :: "real list list \<Rightarrow> real list \<Rightarrow> real list" where
  "similarities stored query = map (\<lambda>row. dot (normalize row) (normalize query)) stored"

text \<open>\<open>np.array\<close> of a list of rows raises \<open>ValueError\<close> unless all rows have one length.\<close>

definition rectangular :: "real list list \<Rightarrow> bool" where
  "rectangular rows = list_all (\<lambda>r. length r = length (hd rows)) rows"

text \<open>
  \<open>np.argsort\<close> belongs to NumPy: the indices in ascending order of the values.  NumPy leaves
  the order of equal values open for its default kind; the model takes the stable order,
  which is what its insertion sort gives on short arrays.
\<close>

definition argsort :: "real list \<Rightarrow> nat list" where
  "argsort xs = map snd (sort_key fst (zip xs [0..<length xs]))"

text \<open>\<open>np.argsort(similarities)[::-1][:k]\<close> with \<open>k = min(top_k, len(similarities))\<close>\<close>

definition top_indices :: "real list \<Rightarrow> int \<Rightarrow> nat list" where
  "top_indices sims top_k = py_slice (rev (argsort sims)) 0 (min top_k (int (length sims)))"

record query_result =
  res_ids :: "string list list"
  res_documents :: "string list list"
  res_metadatas :: "metadata list list"
  res_distances :: "real list list"

definition empty_result :: query_result where
  "empty_result = \<lparr>res_ids = [[]], res_documents = [[]], res_metadatas = [[]], res_distances = [[]]\<rparr>"

text \<open>
  \<open>query_chunks\<close>.  The arguments of the \<open>logger.debug\<close> call are evaluated before the call,
  so \<open>similarities[top_indices[0]]\<close> raises \<open>IndexError\<close> when no index was selected.
\<close>

definition query_collection :: "collection \<Rightarrow> real list \<Rightarrow> int \<Rightarrow> py_error + query_result" where
  "query_collection c query_embedding top_k =
     (if embeddings c = [] then Inr empty_result
      else if \<not> rectangular (embeddings c) then Inl ValueError
      else if length (hd (embeddings c)) \<noteq> length query_embedding then Inl ValueError
      else
        (let sims = similarities (embeddings c) query_embedding;
             top = top_indices sims top_k
         in if top = [] then Inl IndexError
            else if \<not> list_all (\<lambda>i. i < length (ids c)) top then Inl IndexError
            else if \<not> list_all (\<lambda>i. i < length (documents c)) top then Inl IndexError
            else if \<not> list_all (\<lambda>i. i < length (metadatas c)) top then Inl IndexError
            else Inr \<lparr>res_ids = [map (\<lambda>i. ids c ! i) top],
                      res_documents = [map (\<lambda>i. documents c ! i) top],
                      res_metadatas = [map (\<lambda>i. metadatas c ! i) top],
                      res_distances = [map (\<lambda>i. 1 - sims ! i) top]\<rparr>))"

definition query_chunks :: "store \<Rightarrow> int \<Rightarrow> real list \<Rightarrow> int \<Rightarrow> (py_error + query_result) \<times> store" where
  "query_chunks s project_id query_embedding top_k =
     (let (c, s1) = load_collection s project_id
      in (query_collection c query_embedding top_k, s1))"

section \<open>Retrieval (\<open>app/services/retrieval.py\<close>)\<close>

record RetrievedChunk =
  rc_file_path :: string
  rc_symbol :: string
  rc_code :: string
  rc_language :: string
  rc_distance :: real
  rc_start_line :: "int option"
  rc_end_line :: "int option"

text \<open>\<open>xs[i]\<close> for a position \<open>i\<close> that is not negative.\<close>

definition item :: "'a list \<Rightarrow> nat \<Rightarrow> py_error + 'a" where
  "item xs i = (if i < length xs then Inr (xs ! i) else Inl IndexError)"

definition no_metadata :: metadata where
  "no_metadata = \<lparr>m_file_path = None, m_symbol = None, m_language = None,
                   m_start_line = None, m_end_line = None\<rparr>"

definition get_or :: "'a option \<Rightarrow> 'a \<Rightarrow> 'a" where
  "get_or v d = (case v of None \<Rightarrow> d | Some x \<Rightarrow> x)"

text \<open>The body of the loop over \<open>enumerate(results["ids"][0])\<close>, at position \<open>i\<close>.\<close>

definition retrieved_at :: "query_result \<Rightarrow> nat \<Rightarrow> py_error + RetrievedChunk" where
  "retrieved_at results i =
     ebind (item (res_metadatas results) 0) (\<lambda>metas.
     ebind (if metas \<noteq> [] then item metas i else Inr no_metadata) (\<lambda>meta.
     ebind (item (res_documents results) 0) (\<lambda>docs.
     ebind (if docs \<noteq> [] then item docs i else Inr []) (\<lambda>doc.
     ebind (item (res_distances results) 0) (\<lambda>dists.
     ebind (if dists \<noteq> [] then item dists i else Inr 1) (\<lambda>dist.
       Inr \<lparr>rc_file_path = get_or (m_file_path meta) ''unknown'',
            rc_symbol = get_or (m_symbol meta) ''unknown'',
            rc_code = doc,
            rc_language = get_or (m_language meta) ''unknown'',
            rc_distance = dist,
            rc_start_line = m_start_line meta,
            rc_end_line = m_end_line meta\<rparr>))))))"

fun collect :: "('a \<Rightarrow> 'e + 'b) \<Rightarrow> 'a list \<Rightarrow> 'e + 'b list" where
  "collect f [] = Inr []"
| "collect f (x # xs) = ebind (f x) (\<lambda>y. ebind (collect f xs) (\<lambda>ys. Inr (y # ys)))"

text \<open>
  \<open>retrieve\<close>.  The embedding model is outside the repository: \<open>embed_query\<close> is a parameter.
\<close>

definition retrieve ::
  "settings \<Rightarrow> (string \<Rightarrow> real list) \<Rightarrow> store \<Rightarrow> int \<Rightarrow> string \<Rightarrow> int option
     \<Rightarrow> (py_error + RetrievedChunk list) \<times> store" where
  "retrieve cfg embed_query s project_id question top_k =
     (let k = (case top_k of None \<Rightarrow> DEFAULT_TOP_K cfg | Some v \<Rightarrow> v);
          (r, s1) = query_chunks s project_id (embed_query question) k
      in (ebind r (\<lambda>results.
            if res_ids results = [] \<or> hd (res_ids results) = [] then Inr []
            else collect (retrieved_at results) [0..<length (hd (res_ids results))]), s1))"

subsection \<open>\<open>build_context_prompt\<close>\<close>







section \<open>Notions used in the statements\<close>

text \<open>The number of windows that start at or after \<open>i\<close>, for a positive step.\<close>

definition window_count :: "nat \<Rightarrow> int \<Rightarrow> int \<Rightarrow> nat" where
  "window_count n step i = nat ((int n - i + step - 1) div step)"

text \<open>The lines that a chunk covers.\<close>

definition line_range :: "CodeChunk \<Rightarrow> int set" where
  "line_range c = {start_line c .. end_line c}"

text \<open>The text of the lines \<open>start_line\<close> to \<open>end_line\<close> of a content:
  \<open>"\n".join(lines[start_line - 1 : end_line])\<close>.\<close>

definition chunk_lines_text :: "string \<Rightarrow> CodeChunk \<Rightarrow> string" where
  "chunk_lines_text content c = join_nl (py_slice (splitlines content) (start_line c - 1) (end_line c))"

text \<open>The four lists of a collection have one length; and so for every collection that the
  store holds, in the cache or in a file.\<close>

definition aligned :: "collection \<Rightarrow> bool" where
  "aligned c = (length (ids c) = length (documents c) \<and> length (documents c) = length (embeddings c)
                \<and> length (embeddings c) = length (metadatas c))"

definition store_aligned :: "store \<Rightarrow> bool" where
  "store_aligned s = ((\<forall>c \<in> ran (collections s). aligned c) \<and> (\<forall>c \<in> ran (files s). aligned c))"

text \<open>The store of a process that has loaded nothing, with no file on disk.\<close>

definition empty_store :: store where
  "empty_store = \<lparr>collections = Map.empty, files = Map.empty\<rparr>"

text \<open>The collection of a project (the cached one, or else its file) is absent or has no
  embeddings.\<close>

definition absent_or_empty :: "store \<Rightarrow> int \<Rightarrow> bool" where
  "absent_or_empty s project_id =
     (case collections s project_id of
        Some c \<Rightarrow> embeddings c = []
      | None \<Rightarrow> (case files s project_id of None \<Rightarrow> True | Some d \<Rightarrow> embeddings d = []))"

text \<open>Ranking order on positions: higher similarity first, and among equal similarities
  the later position first.\<close>

definition ranks_before :: "real list \<Rightarrow> nat \<Rightarrow> nat \<Rightarrow> bool" where
  "ranks_before sims i j = (sims ! j < sims ! i \<or> (sims ! i = sims ! j \<and> j < i))"

text \<open>
  How the code of a chunk relates to the lines it names, by the kind of the chunk as its
  symbol shows it: a preamble, the whole file, a JS/TS declaration, or anything else.
\<close>

definition code_rule :: "string \<Rightarrow> string \<Rightarrow> CodeChunk \<Rightarrow> bool" where
  "code_rule lang content c =
     (if symbol c = ''<module>'' \<or> symbol c = ''<imports>'' then
        code c = strip (chunk_lines_text content c)
      else if symbol c = ''<file>'' then
        code c = content \<and> start_line c = 1 \<and> end_line c = int (length (splitlines content))
      else if (lang = ''javascript'' \<or> lang = ''typescript'') \<and> take 7 (symbol c) \<noteq> ''<block_'' then
        code c = rstrip (chunk_lines_text content c)
      else code c = chunk_lines_text content c)"

section \<open>The fixed-window loop\<close>

lemma window_count_done: "0 < step \<Longrightarrow> \<not> i < int n \<Longrightarrow> window_count n step i = 0"
  unfolding window_count_def
proof -
  assume a: "0 < step" "\<not> i < int n"
  have "int n - i + step - 1 < step" using a by simp
  hence "(int n - i + step - 1) div step \<le> 0"
    using a(1) by (smt (verit) div_pos_neg_trivial div_pos_pos_trivial zdiv_mono1 div_by_0 pos_imp_zdiv_neg_iff)
  thus "nat ((int n - i + step - 1) div step) = 0" by simp
qed

lemma window_count_step:
  assumes "0 < step" "i < int n"
  shows "window_count n step i = Suc (window_count n step (i + step))"
proof -
  have "int n - i + step - 1 = (int n - (i + step) + step - 1) + 1 * step" by simp
  hence "(int n - i + step - 1) div step = (int n - (i + step) + step - 1) div step + 1"
    using assms(1) by (metis div_mult_self1 less_irrefl add.commute)
  moreover have "0 \<le> (int n - (i + step) + step - 1) div step"
    using assms by (simp add: pos_imp_zdiv_nonneg_iff)
  ultimately show ?thesis unfolding window_count_def by simp
qed

text \<open>With a positive step the loop returns, and its result has a closed form.\<close>

lemma chunk_by_lines_loop_unroll:
  assumes "0 < window - overlap"
  shows "chunk_by_lines_loop fp lang lines window overlap i idx chunks =
     Some (chunks @ map (\<lambda>j. block_chunk fp lang lines window (i + int j * (window - overlap)) (idx + int j))
                      [0..<window_count (length lines) (window - overlap) i])"
proof (induction "nat (int (length lines) - i)" arbitrary: i idx chunks rule: less_induct)
  case less
  show ?case
  proof (cases "i < int (length lines)")
    case False
    then show ?thesis
      by (subst chunk_by_lines_loop.simps) (simp add: window_count_done [OF assms])
  next
    case True
    have lt: "nat (int (length lines) - (i + (window - overlap))) < nat (int (length lines) - i)"
      using True assms by linarith
    have cnt: "window_count (length lines) (window - overlap) i =
               Suc (window_count (length lines) (window - overlap) (i + (window - overlap)))"
      by (rule window_count_step [OF assms True])
    have shift: "map (\<lambda>j. block_chunk fp lang lines window (i + int j * (window - overlap)) (idx + int j)) [0..<Suc m]
        = block_chunk fp lang lines window i idx #
          map (\<lambda>j. block_chunk fp lang lines window (i + (window - overlap) + int j * (window - overlap)) (idx + 1 + int j)) [0..<m]" for m
      by (simp add: upt_conv_Cons map_Suc_upt [symmetric] algebra_simps del: upt_Suc)
    show ?thesis
      by (subst chunk_by_lines_loop.simps) (simp add: True less(1) [OF lt] cnt shift del: upt_Suc)
  qed
qed

text \<open>With a step that is not positive the loop never leaves a state with \<open>i < len(lines)\<close>.\<close>

lemma chunk_by_lines_loop_stuck:
  assumes r: "chunk_by_lines_loop fp lang lines window overlap i idx chunks = Some r"
  shows "\<not> (window - overlap \<le> 0 \<and> i < int (length lines))"
proof (rule chunk_by_lines_loop.raw_induct
    [where P = "\<lambda>fp lang lines window overlap i idx chunks r. \<not> (window - overlap \<le> 0 \<and> i < int (length lines))", OF _ r])
  fix loop fp lang lines window overlap i idx chunks r
  assume ih: "\<And>fp lang lines window overlap i idx chunks r.
        loop fp lang lines window overlap i idx chunks = Some r \<Longrightarrow>
        \<not> (window - overlap \<le> 0 \<and> i < int (length (lines :: string list)))"
    and body: "(if i < int (length lines)
      then loop fp lang lines window overlap (i + (window - overlap)) (idx + 1)
            (chunks @ [block_chunk fp lang lines window i idx])
      else Some chunks) = Some r"
  show "\<not> (window - overlap \<le> 0 \<and> i < int (length lines))"
  proof
    assume a: "window - overlap \<le> 0 \<and> i < int (length lines)"
    with body have "loop fp lang lines window overlap (i + (window - overlap)) (idx + 1)
            (chunks @ [block_chunk fp lang lines window i idx]) = Some r" by simp
    from ih [OF this] a show False by linarith
  qed
qed

lemma chunk_by_lines_loop_diverges:
  assumes "window - overlap \<le> 0" "i < int (length lines)"
  shows "chunk_by_lines_loop fp lang lines window overlap i idx chunks = None"
proof (cases "chunk_by_lines_loop fp lang lines window overlap i idx chunks")
  case None then show ?thesis .
next
  case (Some r)
  from chunk_by_lines_loop_stuck [OF Some] assms show ?thesis by simp
qed

section \<open>Lines of a text\<close>

lemma splitlines_from_Nil_iff: "splitlines_from cur s = [] \<longleftrightarrow> cur = [] \<and> s = []"
  by (induction cur s rule: splitlines_from.induct) auto

lemma splitlines_Nil_iff: "splitlines s = [] \<longleftrightarrow> s = []"
  by (simp add: splitlines_def splitlines_from_Nil_iff)

lemma splitlines_from_newlines: "splitlines_from [] (replicate n CHR 0x0A) = replicate n []"
  by (induction n) (auto simp: is_linebreak_def)

lemma splitlines_newlines: "splitlines (replicate n CHR 0x0A) = replicate n []"
  by (simp add: splitlines_def splitlines_from_newlines)

section \<open>Termination of the fixed-window fallback\<close>

lemma chunk_by_lines_returns:
  assumes "20 < FALLBACK_CHUNK_LINES st"
  shows "chunk_by_lines st fp content lang \<noteq> None"
  using assms by (simp add: chunk_by_lines_def Let_def chunk_by_lines_loop_unroll)

lemma chunk_by_lines_never_returns:
  assumes "FALLBACK_CHUNK_LINES st \<le> 20" "splitlines content \<noteq> []"
    "MAX_CHUNK_LINES st < int (length (splitlines content))"
  shows "chunk_by_lines st fp content lang = None"
  using assms by (simp add: chunk_by_lines_def Let_def chunk_by_lines_loop_diverges)

text \<open>
  C10.  \<open>_chunk_by_lines\<close> returns on every input exactly when the configured window
  \<open>FALLBACK_CHUNK_LINES\<close> is greater than the fixed overlap of 20 lines.  With a window of at
  most 20 lines the loop never ends on any file (a content that is not empty) with more
  lines than \<open>MAX_CHUNK_LINES\<close>.
\<close>

theorem chunk_by_lines_terminates_iff:
  "((\<forall>fp content lang. chunk_by_lines st fp content lang \<noteq> None) \<longleftrightarrow> 20 < FALLBACK_CHUNK_LINES st) \<and>
   (FALLBACK_CHUNK_LINES st \<le> 20 \<longrightarrow>
      (\<forall>fp content lang. content \<noteq> [] \<and> MAX_CHUNK_LINES st < int (length (splitlines content))
          \<longrightarrow> chunk_by_lines st fp content lang = None))"
proof (intro conjI iffI impI allI)
  assume all: "\<forall>fp content lang. chunk_by_lines st fp content lang \<noteq> None"
  show "20 < FALLBACK_CHUNK_LINES st"
  proof (rule ccontr)
    assume "\<not> 20 < FALLBACK_CHUNK_LINES st"
    hence le: "FALLBACK_CHUNK_LINES st \<le> 20" by simp
    define content where "content = replicate (Suc (nat (MAX_CHUNK_LINES st))) (CHR 0x0A)"
    have "splitlines content \<noteq> []" "MAX_CHUNK_LINES st < int (length (splitlines content))"
      unfolding content_def splitlines_newlines by simp_all
    from chunk_by_lines_never_returns [OF le this] all show False by blast
  qed
next
  fix fp content lang
  assume "20 < FALLBACK_CHUNK_LINES st"
  thus "chunk_by_lines st fp content lang \<noteq> None" by (rule chunk_by_lines_returns)
next
  fix fp content lang
  assume "FALLBACK_CHUNK_LINES st \<le> 20"
    "content \<noteq> [] \<and> MAX_CHUNK_LINES st < int (length (splitlines content))"
  thus "chunk_by_lines st fp content lang = None"
    by (simp add: chunk_by_lines_never_returns splitlines_Nil_iff)
qed

theorem chunk_by_lines_terminates_iff_witness:
  "20 < FALLBACK_CHUNK_LINES default_settings \<and>
   chunk_by_lines default_settings ''a.txt'' ''x'' ''text'' \<noteq> None \<and>
   FALLBACK_CHUNK_LINES \<lparr>MAX_CHUNK_LINES = 0, FALLBACK_CHUNK_LINES = 20, DEFAULT_TOP_K = 20\<rparr> \<le> 20 \<and>
   ''x'' \<noteq> [] \<and>
   MAX_CHUNK_LINES \<lparr>MAX_CHUNK_LINES = 0, FALLBACK_CHUNK_LINES = 20, DEFAULT_TOP_K = 20\<rparr> < int (length (splitlines ''x'')) \<and>
   chunk_by_lines \<lparr>MAX_CHUNK_LINES = 0, FALLBACK_CHUNK_LINES = 20, DEFAULT_TOP_K = 20\<rparr> ''a.txt'' ''x'' ''text'' = None"
proof -
  have a: "20 < FALLBACK_CHUNK_LINES default_settings" by (simp add: default_settings_def)
  have b: "''x'' \<noteq> [] \<and> MAX_CHUNK_LINES \<lparr>MAX_CHUNK_LINES = 0, FALLBACK_CHUNK_LINES = 20, DEFAULT_TOP_K = 20\<rparr> < int (length (splitlines ''x''))"
    by (simp add: splitlines_def)
  have c: "FALLBACK_CHUNK_LINES \<lparr>MAX_CHUNK_LINES = 0, FALLBACK_CHUNK_LINES = 20, DEFAULT_TOP_K = 20\<rparr> \<le> 20" by simp
  from chunk_by_lines_terminates_iff [of default_settings] a
  have 1: "chunk_by_lines default_settings ''a.txt'' ''x'' ''text'' \<noteq> None" by blast
  from chunk_by_lines_terminates_iff [of "\<lparr>MAX_CHUNK_LINES = 0, FALLBACK_CHUNK_LINES = 20, DEFAULT_TOP_K = 20\<rparr>"] b c
  have 2: "chunk_by_lines \<lparr>MAX_CHUNK_LINES = 0, FALLBACK_CHUNK_LINES = 20, DEFAULT_TOP_K = 20\<rparr> ''a.txt'' ''x'' ''text'' = None" by blast
  from a b c 1 2 show ?thesis by blast
qed

section \<open>Every file with content yields a chunk\<close>

lemma chunk_by_lines_windows:
  assumes "20 < FALLBACK_CHUNK_LINES st" "splitlines content \<noteq> []"
    "MAX_CHUNK_LINES st < int (length (splitlines content))"
  shows "chunk_by_lines st fp content lang =
     Some (map (\<lambda>j. block_chunk fp lang (splitlines content) (FALLBACK_CHUNK_LINES st)
                       (int j * (FALLBACK_CHUNK_LINES st - 20)) (int j))
               [0..<window_count (length (splitlines content)) (FALLBACK_CHUNK_LINES st - 20) 0])"
  using assms by (simp add: chunk_by_lines_def Let_def chunk_by_lines_loop_unroll)

lemma window_count_pos: "0 < step \<Longrightarrow> 0 < n \<Longrightarrow> 0 < window_count n step 0"
  using window_count_step [of step 0 n] by simp

lemma chunk_by_lines_nonempty:
  assumes "content \<noteq> []" "20 < FALLBACK_CHUNK_LINES st \<or> int (length (splitlines content)) \<le> MAX_CHUNK_LINES st"
  shows "\<exists>cs. chunk_by_lines st fp content lang = Some cs \<and> cs \<noteq> []"
proof (cases "int (length (splitlines content)) \<le> MAX_CHUNK_LINES st")
  case True
  with assms(1) show ?thesis by (simp add: chunk_by_lines_def Let_def splitlines_Nil_iff)
next
  case False
  with assms have w: "20 < FALLBACK_CHUNK_LINES st" and ne: "splitlines content \<noteq> []"
    by (simp_all add: splitlines_Nil_iff)
  from False have gt: "MAX_CHUNK_LINES st < int (length (splitlines content))" by simp
  have "0 < window_count (length (splitlines content)) (FALLBACK_CHUNK_LINES st - 20) 0"
    using w ne by (intro window_count_pos) simp_all
  thus ?thesis by (simp add: chunk_by_lines_windows [OF w ne gt])
qed

section \<open>Overlap and coverage of the fixed windows\<close>

lemma le_div_imp_mult_le: 
  assumes "0 < (s::int)" "a \<le> b div s" shows "a * s \<le> b"
proof -
  have "a * s \<le> (b div s) * s" using assms by (simp add: mult_right_mono)
  moreover have "(b div s) * s + b mod s = b" by (rule div_mult_mod_eq)
  moreover have "0 \<le> b mod s" using assms(1) by simp
  ultimately show ?thesis by linarith
qed
lemma mult_le_imp_le_div: "0 < (s::int) \<Longrightarrow> a * s \<le> b \<Longrightarrow> a \<le> b div s"
  using zdiv_mono1 by fastforce

lemma window_count_less_iff:
  assumes "0 < s"
  shows "(j < window_count n s 0) = (int j * s < int n)"
proof -
  have "(int j < (int n + s - 1) div s) = (int j * s < int n)"
  proof
    assume "int j < (int n + s - 1) div s"
    hence "int j + 1 \<le> (int n + s - 1) div s" by simp
    hence "(int j + 1) * s \<le> int n + s - 1"
      using assms by (rule le_div_imp_mult_le [rotated])
    thus "int j * s < int n" by (simp add: algebra_simps)
  next
    assume "int j * s < int n"
    hence "(int j + 1) * s \<le> int n + s - 1" by (simp add: algebra_simps)
    hence "int j + 1 \<le> (int n + s - 1) div s"
      using assms by (rule mult_le_imp_le_div [rotated])
    thus "int j < (int n + s - 1) div s" by simp
  qed
  thus ?thesis unfolding window_count_def by (simp add: zless_nat_eq_int_zless)
qed

lemma line_range_block_chunk:
  "line_range (block_chunk fp lang lines window i idx) = {i + 1 .. min (i + window) (int (length lines))}"
  by (simp add: line_range_def block_chunk_def)

lemma windows_overlap:
  assumes s: "0 < window - 20" and w: "40 \<le> window"
    and j: "int (j + 2) * (window - 20) < int n"
  shows "card ({int j * (window - 20) + 1 .. min (int j * (window - 20) + window) (int n)} \<inter>
               {int (Suc j) * (window - 20) + 1 .. min (int (Suc j) * (window - 20) + window) (int n)}) = 20"
proof -
  define k where "k = int j * (window - 20)"
  have k1: "int (Suc j) * (window - 20) = k + (window - 20)" by (simp add: k_def algebra_simps)
  have "int (j + 2) * (window - 20) = k + 2 * (window - 20)" by (simp add: k_def algebra_simps)
  with j have "k + 2 * (window - 20) < int n" by simp
  with w have e: "k + window \<le> int n" by simp
  have "{k + 1 .. min (k + window) (int n)} \<inter>
        {k + (window - 20) + 1 .. min (k + (window - 20) + window) (int n)}
       = {k + (window - 20) + 1 .. k + window}"
    using e s by auto
  moreover have "card {k + (window - 20) + 1 .. k + window} = 20" by simp
  ultimately show ?thesis unfolding k1 k_def [symmetric] by simp
qed

lemma windows_cover:
  assumes s: "0 < window - overlap" and o: "0 \<le> overlap"
  shows "(\<Union>j \<in> {0..<window_count n (window - overlap) 0}.
            {int j * (window - overlap) + 1 .. min (int j * (window - overlap) + window) (int n)}) = {1 .. int n}"
proof (intro equalityI subsetI)
  fix x assume "x \<in> (\<Union>j \<in> {0..<window_count n (window - overlap) 0}.
            {int j * (window - overlap) + 1 .. min (int j * (window - overlap) + window) (int n)})"
  then obtain j where "int j * (window - overlap) + 1 \<le> x" "x \<le> int n" by auto
  moreover have "0 \<le> int j * (window - overlap)" using s by simp
  ultimately show "x \<in> {1 .. int n}" by simp
next
  fix x assume x: "x \<in> {1 .. int n}"
  define j where "j = nat ((x - 1) div (window - overlap))"
  have nn: "0 \<le> (x - 1) div (window - overlap)" using x s by (simp add: pos_imp_zdiv_nonneg_iff)
  hence ij: "int j = (x - 1) div (window - overlap)" by (simp add: j_def)
  have lo: "int j * (window - overlap) \<le> x - 1"
    unfolding ij using s by (intro le_div_imp_mult_le) simp_all
  have "(x - 1) div (window - overlap) * (window - overlap) + (x - 1) mod (window - overlap) = x - 1"
    by (rule div_mult_mod_eq)
  hence "x - 1 = int j * (window - overlap) + (x - 1) mod (window - overlap)" unfolding ij by simp
  moreover have "(x - 1) mod (window - overlap) < window - overlap" using s by simp
  ultimately have hi: "x - 1 < int j * (window - overlap) + (window - overlap)" by linarith
  have "int j * (window - overlap) < int n" using lo x by simp
  hence "j \<in> {0..<window_count n (window - overlap) 0}" by (simp add: window_count_less_iff [OF s])
  moreover have "x \<in> {int j * (window - overlap) + 1 .. min (int j * (window - overlap) + window) (int n)}"
    using lo hi x o by simp
  ultimately show "x \<in> (\<Union>j \<in> {0..<window_count n (window - overlap) 0}.
            {int j * (window - overlap) + 1 .. min (int j * (window - overlap) + window) (int n)})" by blast
qed

text \<open>
  C5, as stated, fails for a window between 21 and 39 lines.  With a window of 21 lines
  (step 1) a file of three lines is cut into the ranges 1-3, 2-3 and 3-3: the first two
  chunks share two lines, not 20, and neither of them is the final chunk.
\<close>

theorem fallback_overlap_counterexample:
  "chunk_by_lines \<lparr>MAX_CHUNK_LINES = 2, FALLBACK_CHUNK_LINES = 21, DEFAULT_TOP_K = 20\<rparr> ''a.txt'' ''a\<newline>b\<newline>c'' ''text'' =
   Some [\<lparr>file_path = ''a.txt'', symbol = ''<block_0>'', code = ''a\<newline>b\<newline>c'', language = ''text'', start_line = 1, end_line = 3\<rparr>,
         \<lparr>file_path = ''a.txt'', symbol = ''<block_1>'', code = ''b\<newline>c'', language = ''text'', start_line = 2, end_line = 3\<rparr>,
         \<lparr>file_path = ''a.txt'', symbol = ''<block_2>'', code = ''c'', language = ''text'', start_line = 3, end_line = 3\<rparr>] \<and>
   card (line_range \<lparr>file_path = ''a.txt'', symbol = ''<block_0>'', code = ''a\<newline>b\<newline>c'', language = ''text'', start_line = 1, end_line = 3\<rparr> \<inter>
         line_range \<lparr>file_path = ''a.txt'', symbol = ''<block_1>'', code = ''b\<newline>c'', language = ''text'', start_line = 2, end_line = 3\<rparr>) = 2"
proof
  show "chunk_by_lines \<lparr>MAX_CHUNK_LINES = 2, FALLBACK_CHUNK_LINES = 21, DEFAULT_TOP_K = 20\<rparr> ''a.txt'' ''a\<newline>b\<newline>c'' ''text'' =
   Some [\<lparr>file_path = ''a.txt'', symbol = ''<block_0>'', code = ''a\<newline>b\<newline>c'', language = ''text'', start_line = 1, end_line = 3\<rparr>,
         \<lparr>file_path = ''a.txt'', symbol = ''<block_1>'', code = ''b\<newline>c'', language = ''text'', start_line = 2, end_line = 3\<rparr>,
         \<lparr>file_path = ''a.txt'', symbol = ''<block_2>'', code = ''c'', language = ''text'', start_line = 3, end_line = 3\<rparr>]"
    by (simp add: chunk_by_lines_def splitlines_def is_linebreak_def chunk_by_lines_loop.simps
        block_chunk_def py_slice_def slice_bound_def str_int_def digits.simps digit_char_def)
  show "card (line_range \<lparr>file_path = ''a.txt'', symbol = ''<block_0>'', code = ''a\<newline>b\<newline>c'', language = ''text'', start_line = 1, end_line = 3\<rparr> \<inter>
         line_range \<lparr>file_path = ''a.txt'', symbol = ''<block_1>'', code = ''b\<newline>c'', language = ''text'', start_line = 2, end_line = 3\<rparr>) = 2"
    by (simp add: line_range_def)
qed

text \<open>
  C5, amended.  For a window \<open>W = FALLBACK_CHUNK_LINES\<close> greater than the overlap of 20 lines
  and every content with more lines than \<open>MAX_CHUNK_LINES\<close>, the fallback returns chunks whose
  line ranges together are exactly the lines 1 to the last line of the file; and when \<open>W\<close>
  is at least twice the overlap (40 lines), every two consecutive chunks of which the second
  is not the final chunk share exactly 20 lines.
\<close>

theorem fallback_windows_overlap_and_cover:
  assumes "20 < FALLBACK_CHUNK_LINES st"
    and "MAX_CHUNK_LINES st < int (length (splitlines content))"
  shows "\<exists>cs. chunk_by_lines st fp content lang = Some cs \<and>
     (40 \<le> FALLBACK_CHUNK_LINES st \<longrightarrow>
        (\<forall>j. j + 2 < length cs \<longrightarrow> card (line_range (cs ! j) \<inter> line_range (cs ! Suc j)) = 20)) \<and>
     (\<Union>c \<in> set cs. line_range c) = {1 .. int (length (splitlines content))}"
proof (cases "splitlines content = []")
  case True
  then show ?thesis by (simp add: chunk_by_lines_def)
next
  case False
  define w where "w = FALLBACK_CHUNK_LINES st"
  define n where "n = length (splitlines content)"
  define m where "m = window_count n (w - 20) 0"
  define cs where "cs = map (\<lambda>j. block_chunk fp lang (splitlines content) w (int j * (w - 20)) (int j)) [0..<m]"
  have s: "0 < w - 20" using assms(1) by (simp add: w_def)
  have run: "chunk_by_lines st fp content lang = Some cs"
    unfolding cs_def m_def n_def w_def by (rule chunk_by_lines_windows [OF assms(1) False assms(2)])
  have len: "length cs = m" by (simp add: cs_def)
  have rng: "line_range (cs ! j) = {int j * (w - 20) + 1 .. min (int j * (w - 20) + w) (int n)}" if "j < m" for j
    using that by (simp add: cs_def line_range_block_chunk n_def)
  have overlap: "card (line_range (cs ! j) \<inter> line_range (cs ! Suc j)) = 20" if w40: "40 \<le> w" and j: "j + 2 < length cs" for j
  proof -
    from j have "j + 2 < m" by (simp add: len)
    hence "int (j + 2) * (w - 20) < int n" unfolding m_def by (simp only: window_count_less_iff [OF s])
    from windows_overlap [OF s w40 this] j show ?thesis by (simp add: rng len)
  qed
  have "(\<Union>c \<in> set cs. line_range c) = (\<Union>j \<in> {0..<m}. line_range (cs ! j))"
  proof -
    have "set cs = (\<lambda>j. cs ! j) ` {0..<m}"
      using len by (auto simp: in_set_conv_nth)
    thus ?thesis by simp
  qed
  also have "\<dots> = (\<Union>j \<in> {0..<m}. {int j * (w - 20) + 1 .. min (int j * (w - 20) + w) (int n)})"
    by (simp add: rng)
  also have "\<dots> = {1 .. int n}" unfolding m_def by (rule windows_cover [OF s]) simp
  finally have cover: "(\<Union>c \<in> set cs. line_range c) = {1 .. int n}" .
  from run overlap cover show ?thesis unfolding w_def n_def by blast
qed

theorem fallback_windows_overlap_and_cover_witness:
  "card (line_range (the (chunk_by_lines \<lparr>MAX_CHUNK_LINES = 0, FALLBACK_CHUNK_LINES = 40, DEFAULT_TOP_K = 20\<rparr> ''a.txt'' (replicate 41 (CHR 0x0A)) ''text'') ! 0) \<inter>
         line_range (the (chunk_by_lines \<lparr>MAX_CHUNK_LINES = 0, FALLBACK_CHUNK_LINES = 40, DEFAULT_TOP_K = 20\<rparr> ''a.txt'' (replicate 41 (CHR 0x0A)) ''text'') ! 1)) = 20 \<and>
   (\<Union>c \<in> set (the (chunk_by_lines \<lparr>MAX_CHUNK_LINES = 0, FALLBACK_CHUNK_LINES = 40, DEFAULT_TOP_K = 20\<rparr> ''a.txt'' (replicate 41 (CHR 0x0A)) ''text'')). line_range c) = {1 .. 41}"
proof -
  define st where "st = \<lparr>MAX_CHUNK_LINES = 0, FALLBACK_CHUNK_LINES = 40, DEFAULT_TOP_K = 20\<rparr>"
  define content where "content = replicate 41 (CHR 0x0A)"
  have n: "length (splitlines content) = 41" unfolding content_def splitlines_newlines by simp
  have a: "20 < FALLBACK_CHUNK_LINES st" by (simp add: st_def)
  have b: "MAX_CHUNK_LINES st < int (length (splitlines content))" by (simp add: n st_def)
  have ne: "splitlines content \<noteq> []" using n by auto
  have "window_count 41 20 0 = 3" by (simp add: window_count_def)
  hence l: "length (the (chunk_by_lines st ''a.txt'' content ''text'')) = 3"
    by (simp add: chunk_by_lines_windows [OF a ne b] n) (simp add: st_def)
  from fallback_windows_overlap_and_cover [OF a b, of "''a.txt''" "''text''"] l
  have "card (line_range (the (chunk_by_lines st ''a.txt'' content ''text'') ! 0) \<inter>
         line_range (the (chunk_by_lines st ''a.txt'' content ''text'') ! 1)) = 20 \<and>
     (\<Union>c \<in> set (the (chunk_by_lines st ''a.txt'' content ''text'')). line_range c) = {1 .. 41}"
    by (auto simp: n st_def)
  thus ?thesis unfolding st_def content_def .
qed

section \<open>The parallel lists of a collection\<close>

lemma aligned_empty: "aligned empty_collection"
  by (simp add: aligned_def empty_collection_def)

lemma load_collection_cached:
  "collections (snd (load_collection s pid)) pid = Some (fst (load_collection s pid))"
  by (simp add: load_collection_def split: option.splits)

lemma load_collection_files: "files (snd (load_collection s pid)) = files s"
  by (simp add: load_collection_def split: option.splits)

lemma load_collection_aligned:
  assumes "store_aligned s"
  shows "aligned (fst (load_collection s pid))" "store_aligned (snd (load_collection s pid))"
proof -
  show "aligned (fst (load_collection s pid))"
    using assms by (auto simp: load_collection_def store_aligned_def aligned_empty ran_def split: option.splits)
  show "store_aligned (snd (load_collection s pid))"
    using assms
    by (auto simp: load_collection_def store_aligned_def aligned_empty ran_def split: option.splits if_splits)
qed

lemma add_chunks_collection:
  "collections (add_chunks s pid a b c d) pid =
     Some (extend_collection (fst (load_collection s pid)) a b c d)"
    "files (add_chunks s pid a b c d) pid =
     Some (extend_collection (fst (load_collection s pid)) a b c d)"
  by (simp_all add: add_chunks_def save_collection_def split: prod.splits)

lemma add_chunks_others:
  assumes "q \<noteq> pid"
  shows "collections (add_chunks s pid a b c d) q = collections s q"
    "files (add_chunks s pid a b c d) q = files s q"
  using assms by (auto simp: add_chunks_def save_collection_def load_collection_def split: prod.splits option.splits)

lemma aligned_extend:
  assumes "aligned c0" "length a = n" "length b = n" "length c = n" "length d = n"
  shows "aligned (extend_collection c0 a b c d)"
  using assms by (simp add: aligned_def extend_collection_def)

lemma add_chunks_aligned:
  assumes "store_aligned s" "length a = n" "length b = n" "length c = n" "length d = n"
  shows "store_aligned (add_chunks s pid a b c d)"
proof -
  have new: "aligned (extend_collection (fst (load_collection s pid)) a b c d)"
    using load_collection_aligned(1) [OF assms(1)] assms(2-5) by (rule aligned_extend)
  have "aligned x" if "collections (add_chunks s pid a b c d) q = Some x" for q x
  proof (cases "q = pid")
    case True with that new show ?thesis by (simp add: add_chunks_collection)
  next
    case False
    with that have "collections s q = Some x" by (simp add: add_chunks_others)
    with assms(1) show ?thesis by (auto simp: store_aligned_def ran_def)
  qed
  moreover have "aligned x" if "files (add_chunks s pid a b c d) q = Some x" for q x
  proof (cases "q = pid")
    case True with that new show ?thesis by (simp add: add_chunks_collection)
  next
    case False
    with that have "files s q = Some x" by (simp add: add_chunks_others)
    with assms(1) show ?thesis by (auto simp: store_aligned_def ran_def)
  qed
  ultimately show ?thesis by (auto simp: store_aligned_def ran_def)
qed

lemma query_chunks_store: "snd (query_chunks s pid q k) = snd (load_collection s pid)"
  by (simp add: query_chunks_def split: prod.splits)

lemma delete_collection_aligned:
  assumes "store_aligned s"
  shows "store_aligned (delete_collection s pid)"
  using assms by (auto simp: store_aligned_def delete_collection_def ran_def split: if_splits)

text \<open>
  C9, as stated, fails: \<open>add_chunks\<close> extends each list by its own argument and checks no
  length, so four arguments of different lengths leave four lists of different lengths.
\<close>

theorem add_chunks_alignment_counterexample:
  "collections (add_chunks empty_store 1 [''chunk_1_0''] [] [] []) 1 =
     Some \<lparr>ids = [''chunk_1_0''], documents = [], embeddings = [], metadatas = []\<rparr> \<and>
   \<not> aligned \<lparr>ids = [''chunk_1_0''], documents = [], embeddings = [], metadatas = []\<rparr>"
  by (simp add: add_chunks_def load_collection_def save_collection_def empty_store_def
      empty_collection_def extend_collection_def aligned_def)

text \<open>
  C9, amended.  In a store whose collections all have four lists of one length: the collection
  that \<open>_load_collection\<close> returns (cached, read from its file, or newly created) has, and
  loading, \<open>query_chunks\<close> and \<open>delete_collection\<close> keep the store so; \<open>add_chunks\<close> keeps it
  so when its four arguments have one length.  After \<open>add_chunks\<close>, whatever the arguments,
  each list of the project's collection, cached and saved, is the list before followed by
  the added entries.
\<close>

theorem collection_lists_aligned:
  assumes "store_aligned s"
  shows "aligned (fst (load_collection s pid)) \<and>
         store_aligned (snd (load_collection s pid)) \<and>
         store_aligned (snd (query_chunks s pid q k)) \<and>
         store_aligned (delete_collection s pid) \<and>
         (length new_ids = n \<and> length new_documents = n \<and> length new_embeddings = n \<and>
          length new_metadatas = n \<longrightarrow>
            store_aligned (add_chunks s pid new_ids new_documents new_embeddings new_metadatas)) \<and>
         (\<exists>c'. collections (add_chunks s pid new_ids new_documents new_embeddings new_metadatas) pid = Some c' \<and>
               files (add_chunks s pid new_ids new_documents new_embeddings new_metadatas) pid = Some c' \<and>
               ids c' = ids (fst (load_collection s pid)) @ new_ids \<and>
               documents c' = documents (fst (load_collection s pid)) @ new_documents \<and>
               embeddings c' = embeddings (fst (load_collection s pid)) @ new_embeddings \<and>
               metadatas c' = metadatas (fst (load_collection s pid)) @ new_metadatas)"
proof -
  note l = load_collection_aligned [OF assms, of pid]
  have q: "store_aligned (snd (query_chunks s pid q k))" by (simp add: query_chunks_store l(2))
  have d: "store_aligned (delete_collection s pid)" by (rule delete_collection_aligned [OF assms])
  have a: "length new_ids = n \<and> length new_documents = n \<and> length new_embeddings = n \<and>
          length new_metadatas = n \<longrightarrow>
            store_aligned (add_chunks s pid new_ids new_documents new_embeddings new_metadatas)"
    using add_chunks_aligned [OF assms] by blast
  have e: "\<exists>c'. collections (add_chunks s pid new_ids new_documents new_embeddings new_metadatas) pid = Some c' \<and>
               files (add_chunks s pid new_ids new_documents new_embeddings new_metadatas) pid = Some c' \<and>
               ids c' = ids (fst (load_collection s pid)) @ new_ids \<and>
               documents c' = documents (fst (load_collection s pid)) @ new_documents \<and>
               embeddings c' = embeddings (fst (load_collection s pid)) @ new_embeddings \<and>
               metadatas c' = metadatas (fst (load_collection s pid)) @ new_metadatas"
    by (simp add: add_chunks_collection extend_collection_def)
  from l q d a e show ?thesis by blast
qed

theorem collection_lists_aligned_witness:
  "store_aligned empty_store \<and>
   store_aligned (add_chunks empty_store 1 [''chunk_1_0''] [''def f(): pass''] [[1, 0]] [no_metadata]) \<and>
   (\<exists>c'. collections (add_chunks empty_store 1 [''chunk_1_0''] [''def f(): pass''] [[1, 0]] [no_metadata]) 1 = Some c' \<and>
         ids c' = [''chunk_1_0''] \<and> embeddings c' = [[1, 0]])"
proof -
  have a: "store_aligned empty_store" by (simp add: store_aligned_def empty_store_def)
  have l: "fst (load_collection empty_store 1) = empty_collection"
    by (simp add: load_collection_def empty_store_def)
  from collection_lists_aligned [OF a, of 1 "[]" 0 "[''chunk_1_0'']" 1 "[''def f(): pass'']" "[[1, 0]]" "[no_metadata]"]
  show ?thesis using a by (auto simp: l empty_collection_def)
qed

section \<open>Queries on a missing or empty collection\<close>

lemma load_absent_or_empty:
  assumes "absent_or_empty s pid"
  shows "embeddings (fst (load_collection s pid)) = []"
  using assms by (auto simp: absent_or_empty_def load_collection_def empty_collection_def split: option.splits)

lemma query_chunks_result: "fst (query_chunks s pid q k) = query_collection (fst (load_collection s pid)) q k"
  by (simp add: query_chunks_def split: prod.splits)

text \<open>
  C7.  For a project whose collection is absent (not cached, no file) or has no embeddings,
  every query vector and every \<open>top_k\<close>: \<open>query_chunks\<close> returns the result with four empty
  sequences, and \<open>retrieve\<close> returns the empty list; neither raises.
\<close>

theorem query_missing_or_empty:
  assumes "absent_or_empty s project_id"
  shows "fst (query_chunks s project_id query_embedding top_k) =
           Inr \<lparr>res_ids = [[]], res_documents = [[]], res_metadatas = [[]], res_distances = [[]]\<rparr> \<and>
         fst (retrieve cfg embed_query s project_id question k) = Inr []"
proof -
  have q: "fst (query_chunks s project_id v n) = Inr empty_result" for v n
    by (simp add: query_chunks_result query_collection_def load_absent_or_empty [OF assms])
  have "fst (retrieve cfg embed_query s project_id question k) = Inr []"
    using q [of "embed_query question" "case k of None \<Rightarrow> DEFAULT_TOP_K cfg | Some v \<Rightarrow> v"]
    by (auto simp: retrieve_def Let_def ebind_def empty_result_def split: prod.splits)
  with q show ?thesis by (simp add: empty_result_def)
qed

theorem query_missing_or_empty_witness:
  "absent_or_empty empty_store 7 \<and>
   fst (query_chunks empty_store 7 [1, 0] 20) =
     Inr \<lparr>res_ids = [[]], res_documents = [[]], res_metadatas = [[]], res_distances = [[]]\<rparr> \<and>
   fst (retrieve default_settings (\<lambda>_. [1, 0]) empty_store 7 ''where is f?'' None) = Inr []"
proof -
  have a: "absent_or_empty empty_store 7" by (simp add: absent_or_empty_def empty_store_def)
  from query_missing_or_empty [OF a] a show ?thesis by blast
qed

section \<open>A query for no result\<close>

text \<open>
  C1.  On a collection with one entry, \<open>top_k = 0\<close> selects \<open>min(0, 1) = 0\<close> indices, and the
  claim asks for a result with no entries.  The code raises \<open>IndexError\<close> instead: the argument
  \<open>similarities[top_indices[0]]\<close> of its debug message is evaluated on the empty selection.
\<close>

theorem query_top_k_zero_raises:
  "fst (query_chunks
          \<lparr>collections = Map.empty,
           files = [1 \<mapsto> \<lparr>ids = [''chunk_1_0''], documents = [''def f(): pass''],
                          embeddings = [[1, 0]], metadatas = [no_metadata]\<rparr>]\<rparr>
          1 [1, 0] 0) = Inl IndexError"
  by (simp add: query_chunks_def load_collection_def query_collection_def rectangular_def
      top_indices_def py_slice_def slice_bound_def)

section \<open>Ranking\<close>

lemma insort_key_pairs:
  fixes p :: "real \<times> nat"
  assumes "sorted_wrt (\<lambda>a b. fst a < fst b \<or> (fst a = fst b \<and> snd a < snd b)) ys"
    and "\<forall>q \<in> set ys. snd p < snd q"
  shows "sorted_wrt (\<lambda>a b. fst a < fst b \<or> (fst a = fst b \<and> snd a < snd b)) (insort_key fst p ys)"
  using assms
proof (induction ys)
  case Nil
  then show ?case by simp
next
  case (Cons y ys)
  show ?case
  proof (cases "fst p \<le> fst y")
    case True
    have "fst p < fst z \<or> (fst p = fst z \<and> snd p < snd z)" if "z \<in> set (y # ys)" for z
    proof -
      have "fst y \<le> fst z" using that Cons.prems(1) by auto
      with True have "fst p \<le> fst z" by simp
      moreover have "snd p < snd z" using that Cons.prems(2) by auto
      ultimately show ?thesis by auto
    qed
    with True Cons.prems(1) show ?thesis by simp
  next
    case False
    have "sorted_wrt (\<lambda>a b. fst a < fst b \<or> (fst a = fst b \<and> snd a < snd b)) (insort_key fst p ys)"
      using Cons by simp
    moreover have "fst y < fst z \<or> (fst y = fst z \<and> snd y < snd z)" if "z \<in> set (insort_key fst p ys)" for z
      using that False Cons.prems(1) by (auto simp: set_insort_key)
    ultimately show ?thesis using False by simp
  qed
qed

lemma sort_key_pairs:
  fixes ps :: "(real \<times> nat) list"
  assumes "sorted_wrt (\<lambda>a b. snd a < snd b) ps"
  shows "sorted_wrt (\<lambda>a b. fst a < fst b \<or> (fst a = fst b \<and> snd a < snd b)) (sort_key fst ps)"
  using assms
proof (induction ps)
  case Nil
  then show ?case by simp
next
  case (Cons p ps)
  have "sorted_wrt (\<lambda>a b. fst a < fst b \<or> (fst a = fst b \<and> snd a < snd b)) (sort_key fst ps)"
    using Cons by simp
  moreover have "\<forall>q \<in> set (sort_key fst ps). snd p < snd q" using Cons.prems by simp
  ultimately show ?case by (simp add: insort_key_pairs)
qed

lemma indexed_sorted: "sorted_wrt (\<lambda>a b. snd a < snd b) (zip xs [0..<length xs])"
proof -
  have "sorted_wrt (<) (map snd (zip xs [0..<length xs]))" by simp
  thus ?thesis by (simp only: sorted_wrt_map)
qed

lemma indexed_member:
  assumes "a \<in> set (zip xs [0..<length xs])"
  shows "snd a < length xs \<and> fst a = xs ! snd a"
  using assms by (auto simp: set_zip)

lemma argsort_ranked: "sorted_wrt (\<lambda>i j. ranks_before xs j i) (argsort xs)"
proof -
  let ?ps = "zip xs [0..<length xs]"
  have "sorted_wrt (\<lambda>a b. fst a < fst b \<or> (fst a = fst b \<and> snd a < snd b)) (sort_key fst ?ps)"
    by (rule sort_key_pairs [OF indexed_sorted])
  hence "sorted_wrt (\<lambda>a b. ranks_before xs (snd b) (snd a)) (sort_key fst ?ps)"
  proof (rule sorted_wrt_mono_rel [rotated])
    fix a b assume "a \<in> set (sort_key fst ?ps)" "b \<in> set (sort_key fst ?ps)"
      and r: "fst a < fst b \<or> (fst a = fst b \<and> snd a < snd b)"
    hence "fst a = xs ! snd a" "fst b = xs ! snd b" using indexed_member [of _ xs] by simp_all
    with r show "ranks_before xs (snd b) (snd a)" by (auto simp: ranks_before_def)
  qed
  thus ?thesis by (simp add: argsort_def sorted_wrt_map)
qed

lemma top_indices_ranked: "sorted_wrt (ranks_before sims) (top_indices sims top_k)"
proof -
  have "sorted_wrt (ranks_before sims) (rev (argsort sims))"
    using argsort_ranked [of sims] by (simp add: sorted_wrt_rev)
  thus ?thesis unfolding top_indices_def py_slice_def by (intro sorted_wrt_take sorted_wrt_drop)
qed

lemma set_argsort: "set (argsort xs) = {0..<length xs}"
proof -
  have "map snd (zip xs [0..<length xs]) = [0..<length xs]" by (simp add: map_snd_zip)
  hence "snd ` set (zip xs [0..<length xs]) = {0..<length xs}"
    by (metis set_map set_upt)
  thus ?thesis by (simp add: argsort_def)
qed

lemma length_argsort: "length (argsort xs) = length xs"
  by (simp add: argsort_def)

lemma length_top_indices:
  assumes "0 \<le> top_k"
  shows "length (top_indices sims top_k) = min (nat top_k) (length sims)"
  using assms by (auto simp: top_indices_def py_slice_def slice_bound_def length_argsort min_def)

lemma set_top_indices: "set (top_indices sims top_k) \<subseteq> {0..<length sims}"
proof -
  have "set (top_indices sims top_k) \<subseteq> set (rev (argsort sims))"
    unfolding top_indices_def py_slice_def by (meson set_take_subset set_drop_subset subset_trans)
  thus ?thesis by (simp add: set_argsort)
qed

lemma query_collection_result:
  assumes "embeddings c \<noteq> []" and "query_collection c q top_k = Inr r"
  shows "r = \<lparr>res_ids = [map (\<lambda>i. ids c ! i) (top_indices (similarities (embeddings c) q) top_k)],
              res_documents = [map (\<lambda>i. documents c ! i) (top_indices (similarities (embeddings c) q) top_k)],
              res_metadatas = [map (\<lambda>i. metadatas c ! i) (top_indices (similarities (embeddings c) q) top_k)],
              res_distances = [map (\<lambda>i. 1 - similarities (embeddings c) q ! i)
                                  (top_indices (similarities (embeddings c) q) top_k)]\<rparr>"
  using assms by (simp add: query_collection_def Let_def split: if_splits)

text \<open>
  C3, as stated, fails.  The ranking is the ascending \<open>argsort\<close> read backwards, so entries
  with equal similarity come out in the reverse of the order in which \<open>argsort\<close> lists them:
  with the stable \<open>argsort\<close>, the entry inserted later comes first.
\<close>

theorem tie_order_counterexample:
  "fst (query_chunks
          \<lparr>collections = Map.empty,
           files = [1 \<mapsto> \<lparr>ids = [''chunk_1_0'', ''chunk_1_1''], documents = [''first'', ''second''],
                          embeddings = [[1, 0], [1, 0]], metadatas = [no_metadata, no_metadata]\<rparr>]\<rparr>
          1 [1, 0] 2) =
     Inr \<lparr>res_ids = [[''chunk_1_1'', ''chunk_1_0'']],
          res_documents = [[''second'', ''first'']],
          res_metadatas = [[no_metadata, no_metadata]],
          res_distances = [[20000000001 / 100000000020000000001,
                            20000000001 / 100000000020000000001]]\<rparr>"
  by (simp add: query_chunks_def load_collection_def query_collection_def rectangular_def
      top_indices_def py_slice_def slice_bound_def argsort_def similarities_def normalize_def
      l2_norm_def dot_def epsilon_def)

text \<open>
  C3, amended.  The entries of a result are those at the positions \<open>top_indices\<close>, in that
  order, and these positions are ranked by descending similarity; entries with equal
  similarity appear in the reverse of their insertion order (\<open>np.argsort\<close> taken as stable).
\<close>

theorem ties_in_reverse_insertion_order:
  "sorted_wrt (ranks_before (similarities (embeddings c) q))
              (top_indices (similarities (embeddings c) q) top_k) \<and>
   (embeddings c \<noteq> [] \<and> query_collection c q top_k = Inr r \<longrightarrow>
      res_ids r = [map (\<lambda>i. ids c ! i) (top_indices (similarities (embeddings c) q) top_k)] \<and>
      res_documents r = [map (\<lambda>i. documents c ! i) (top_indices (similarities (embeddings c) q) top_k)] \<and>
      res_metadatas r = [map (\<lambda>i. metadatas c ! i) (top_indices (similarities (embeddings c) q) top_k)] \<and>
      res_distances r = [map (\<lambda>i. 1 - similarities (embeddings c) q ! i)
                            (top_indices (similarities (embeddings c) q) top_k)])"
proof (intro conjI impI)
  show "sorted_wrt (ranks_before (similarities (embeddings c) q))
              (top_indices (similarities (embeddings c) q) top_k)"
    by (rule top_indices_ranked)
next
  assume a: "embeddings c \<noteq> [] \<and> query_collection c q top_k = Inr r"
  hence r: "r = \<lparr>res_ids = [map (\<lambda>i. ids c ! i) (top_indices (similarities (embeddings c) q) top_k)],
              res_documents = [map (\<lambda>i. documents c ! i) (top_indices (similarities (embeddings c) q) top_k)],
              res_metadatas = [map (\<lambda>i. metadatas c ! i) (top_indices (similarities (embeddings c) q) top_k)],
              res_distances = [map (\<lambda>i. 1 - similarities (embeddings c) q ! i)
                                  (top_indices (similarities (embeddings c) q) top_k)]\<rparr>"
    by (intro query_collection_result) simp_all
  show "res_ids r = [map (\<lambda>i. ids c ! i) (top_indices (similarities (embeddings c) q) top_k)]"
    by (subst r) simp
  show "res_documents r = [map (\<lambda>i. documents c ! i) (top_indices (similarities (embeddings c) q) top_k)]"
    by (subst r) simp
  show "res_metadatas r = [map (\<lambda>i. metadatas c ! i) (top_indices (similarities (embeddings c) q) top_k)]"
    by (subst r) simp
  show "res_distances r = [map (\<lambda>i. 1 - similarities (embeddings c) q ! i)
                            (top_indices (similarities (embeddings c) q) top_k)]"
    by (subst r) simp
qed

theorem ties_in_reverse_insertion_order_witness:
  "top_indices (similarities [[1, 0], [0, 1], [1, 0]] [1, 0]) 3 = [2, 0, 1] \<and>
   sorted_wrt (ranks_before (similarities [[1, 0], [0, 1], [1, 0]] [1, 0])) [2, 0, 1] \<and>
   res_ids (projr (query_collection
       \<lparr>ids = [''chunk_1_0'', ''chunk_1_1'', ''chunk_1_2''], documents = [''first'', ''second'', ''third''],
        embeddings = [[1, 0], [0, 1], [1, 0]], metadatas = [no_metadata, no_metadata, no_metadata]\<rparr>
       [1, 0] 3)) = [[''chunk_1_2'', ''chunk_1_0'', ''chunk_1_1'']]"
proof -
  define c where "c = \<lparr>ids = [''chunk_1_0'', ''chunk_1_1'', ''chunk_1_2''], documents = [''first'', ''second'', ''third''],
        embeddings = [[1, 0], [0, 1], [1, 0]], metadatas = [no_metadata, no_metadata, no_metadata]\<rparr>"
  have e: "embeddings c = [[1, 0], [0, 1], [1, 0]]" by (simp add: c_def)
  have t: "top_indices (similarities [[1, 0], [0, 1], [1, 0]] [1, 0]) 3 = [2, 0, 1]"
    by (simp add: top_indices_def py_slice_def slice_bound_def argsort_def similarities_def normalize_def
      l2_norm_def dot_def epsilon_def)
  have ok: "\<exists>r. query_collection c [1, 0] 3 = Inr r"
    by (simp add: query_collection_def e t rectangular_def Let_def) (simp add: c_def)
  then obtain r where r: "query_collection c [1, 0] 3 = Inr r" by blast
  from ties_in_reverse_insertion_order [of c "[1, 0]" 3 r] r
  have "sorted_wrt (ranks_before (similarities [[1, 0], [0, 1], [1, 0]] [1, 0])) [2, 0, 1] \<and>
        res_ids r = [[''chunk_1_2'', ''chunk_1_0'', ''chunk_1_1'']]"
    by (simp add: e t) (simp add: c_def)
  with t r show ?thesis unfolding c_def by simp
qed

section \<open>Length, order and range of the distances\<close>

lemma sum_squares_nonneg: "0 \<le> sum_list (map (\<lambda>x. x * x) (v :: real list))"
  by (induction v) simp_all

lemma two_products_le:
  fixes a b s A B :: real
  assumes "s\<^sup>2 \<le> A * B" "0 \<le> A" "0 \<le> B"
  shows "2 * (a * b) * s \<le> a\<^sup>2 * B + b\<^sup>2 * A"
proof -
  have "\<bar>s\<bar> \<le> sqrt (A * B)" using assms(1) by (simp add: real_le_rsqrt)
  hence s: "\<bar>s\<bar> \<le> sqrt A * sqrt B" by (simp add: real_sqrt_mult)
  define x where "x = \<bar>a\<bar> * sqrt B"
  define y where "y = \<bar>b\<bar> * sqrt A"
  have x2: "x\<^sup>2 = a\<^sup>2 * B" using assms(3) by (simp add: x_def power_mult_distrib)
  have y2: "y\<^sup>2 = b\<^sup>2 * A" using assms(2) by (simp add: y_def power_mult_distrib)
  have "2 * (a * b) * s \<le> 2 * (\<bar>a\<bar> * \<bar>b\<bar>) * \<bar>s\<bar>"
    by (metis abs_ge_self abs_mult abs_numeral)
  also have "\<dots> \<le> 2 * (\<bar>a\<bar> * \<bar>b\<bar>) * (sqrt A * sqrt B)"
    using s by (intro mult_left_mono) simp_all
  also have "\<dots> = 2 * x * y" by (simp add: x_def y_def)
  also have "\<dots> \<le> x\<^sup>2 + y\<^sup>2" using sum_squares_bound [of x y] by simp
  finally show ?thesis by (simp add: x2 y2)
qed

lemma dot_squared_le:
  "(dot u v)\<^sup>2 \<le> sum_list (map (\<lambda>x. x * x) u) * sum_list (map (\<lambda>x. x * x) v)"
proof (induction u v rule: list_induct2')
  case (4 a u b v)
  let ?S = "dot u v" and ?A = "sum_list (map (\<lambda>x. x * x) u)" and ?B = "sum_list (map (\<lambda>x. x * x) v)"
  have ih: "?S\<^sup>2 \<le> ?A * ?B" using 4 by simp
  have "(a * b + ?S)\<^sup>2 = a\<^sup>2 * b\<^sup>2 + 2 * (a * b) * ?S + ?S\<^sup>2"
    by (simp add: power2_eq_square algebra_simps)
  also have "\<dots> \<le> a\<^sup>2 * b\<^sup>2 + (a\<^sup>2 * ?B + b\<^sup>2 * ?A) + ?A * ?B"
    using two_products_le [OF ih sum_squares_nonneg sum_squares_nonneg, of a b] ih by linarith
  also have "\<dots> = (a * a + ?A) * (b * b + ?B)"
    by (simp add: power2_eq_square algebra_simps)
  finally show ?case by (simp add: dot_def)
qed (simp_all add: dot_def mult_nonneg_nonneg sum_squares_nonneg add_nonneg_nonneg)

lemma abs_dot_le: "\<bar>dot u v\<bar> \<le> l2_norm u * l2_norm v"
proof -
  have "\<bar>dot u v\<bar> \<le> sqrt (sum_list (map (\<lambda>x. x * x) u) * sum_list (map (\<lambda>x. x * x) v))"
    using dot_squared_le [of u v] by (simp add: real_le_rsqrt)
  thus ?thesis by (simp add: l2_norm_def real_sqrt_mult)
qed

lemma l2_norm_nonneg: "0 \<le> l2_norm v"
  by (simp add: l2_norm_def sum_squares_nonneg)

lemma dot_scale: "dot (map (\<lambda>x. x / a) u) (map (\<lambda>x. x / b) v) = dot u v / (a * b)"
proof (induction u v rule: list_induct2')
  case (4 x u y v)
  then show ?case by (simp add: dot_def add_divide_distrib)
qed (simp_all add: dot_def)

lemma similarity_bounds:
  "\<bar>dot (normalize u) (normalize v)\<bar> \<le> 1"
proof -
  define a where "a = l2_norm u + epsilon"
  define b where "b = l2_norm v + epsilon"
  have e: "0 < epsilon" by (simp add: epsilon_def)
  have a: "0 < a" "l2_norm u \<le> a" using e l2_norm_nonneg [of u] by (simp_all add: a_def)
  have b: "0 < b" "l2_norm v \<le> b" using e l2_norm_nonneg [of v] by (simp_all add: b_def)
  have "\<bar>dot u v\<bar> \<le> l2_norm u * l2_norm v" by (rule abs_dot_le)
  also have "\<dots> \<le> a * b" using a b l2_norm_nonneg by (intro mult_mono) simp_all
  finally have "\<bar>dot u v\<bar> / (a * b) \<le> 1" using a b by (simp add: divide_le_eq)
  moreover have "dot (normalize u) (normalize v) = dot u v / (a * b)"
    by (simp add: normalize_def dot_scale a_def b_def)
  ultimately show ?thesis using a b by (simp add: abs_mult)
qed

lemma similarities_nth:
  assumes "i < length stored"
  shows "\<bar>similarities stored q ! i\<bar> \<le> 1"
  using assms by (simp add: similarities_def similarity_bounds)

lemma length_similarities: "length (similarities stored q) = length stored"
  by (simp add: similarities_def)

text \<open>
  For \<open>top_k\<close> of at least 1 and a collection whose four lists have one length, whose
  embeddings all have the dimension of the query vector: the result has \<open>min(top_k, N)\<close>
  entries, in order of distance, and every distance lies between 0 and 2 (in exact
  arithmetic).
\<close>

lemma query_collection_ranked:
  assumes k: "1 \<le> top_k" and al: "aligned c" and ne: "embeddings c \<noteq> []"
    and rect: "rectangular (embeddings c)" and dim: "length (hd (embeddings c)) = length q"
  shows "\<exists>r. query_collection c q top_k = Inr r \<and>
     length (hd (res_ids r)) = min (nat top_k) (length (embeddings c)) \<and>
     length (hd (res_documents r)) = min (nat top_k) (length (embeddings c)) \<and>
     length (hd (res_metadatas r)) = min (nat top_k) (length (embeddings c)) \<and>
     length (hd (res_distances r)) = min (nat top_k) (length (embeddings c)) \<and>
     sorted (hd (res_distances r)) \<and>
     (\<forall>d \<in> set (hd (res_distances r)). 0 \<le> d \<and> d \<le> 2)"
proof -
  define sims where "sims = similarities (embeddings c) q"
  define top where "top = top_indices sims top_k"
  have n: "length sims = length (embeddings c)" by (simp add: sims_def length_similarities)
  have len: "length top = min (nat top_k) (length (embeddings c))"
    using k by (simp add: top_def length_top_indices n)
  have "0 < nat top_k" "0 < length (embeddings c)" using k ne by simp_all
  hence "0 < length top" unfolding len by simp
  hence top_ne: "top \<noteq> []" by auto
  have sub: "\<forall>i \<in> set top. i < length (embeddings c)"
    using set_top_indices [of sims top_k] by (auto simp: top_def n)
  have idx: "list_all (\<lambda>i. i < length (ids c)) top" "list_all (\<lambda>i. i < length (documents c)) top"
    "list_all (\<lambda>i. i < length (metadatas c)) top"
    using sub al by (simp_all add: list_all_iff aligned_def)
  define r where "r = \<lparr>res_ids = [map (\<lambda>i. ids c ! i) top],
                      res_documents = [map (\<lambda>i. documents c ! i) top],
                      res_metadatas = [map (\<lambda>i. metadatas c ! i) top],
                      res_distances = [map (\<lambda>i. 1 - sims ! i) top]\<rparr>"
  have run: "query_collection c q top_k = Inr r"
    using ne rect dim top_ne idx
    by (simp add: query_collection_def Let_def sims_def [symmetric] top_def [symmetric] r_def)
  have "sorted_wrt (ranks_before sims) top" unfolding top_def by (rule top_indices_ranked)
  hence "sorted_wrt (\<lambda>i j. 1 - sims ! i \<le> 1 - sims ! j) top"
    by (rule sorted_wrt_mono_rel [rotated]) (auto simp: ranks_before_def)
  hence srt: "sorted (map (\<lambda>i. 1 - sims ! i) top)" by (simp add: sorted_wrt_map)
  have rng: "0 \<le> 1 - sims ! i \<and> 1 - sims ! i \<le> 2" if "i \<in> set top" for i
  proof -
    from that sub have "i < length (embeddings c)" by simp
    from similarities_nth [OF this, of q] show ?thesis by (simp add: sims_def abs_le_iff)
  qed
  from run len srt rng show ?thesis by (auto simp: r_def)
qed

section \<open>Every file with content yields a chunk, unless the parser fails\<close>

lemma chunk_python_raises_iff:
  "chunk_python st ast_parse fp content = Inl e \<longleftrightarrow> ast_parse content = ParseRaises e"
  by (simp add: chunk_python_def Let_def split: parse_outcome.splits)

lemma chunk_file_fallthrough_nonempty:
  assumes "content \<noteq> []"
    and "20 < FALLBACK_CHUNK_LINES st \<or> int (length (splitlines content)) \<le> MAX_CHUNK_LINES st"
  shows "\<exists>cs. chunk_file_fallthrough st fp content lang = Some (Inr cs) \<and> cs \<noteq> []"
  using chunk_by_lines_nonempty [OF assms, of fp lang] by (auto simp: chunk_file_fallthrough_def)

lemma chunk_javascript_empty: "chunk_javascript fp [] lang = []"
  by (simp add: chunk_javascript_def splitlines_def)

lemma chunk_file_fallthrough_empty: "chunk_file_fallthrough st fp [] lang = Some (Inr [])"
  by (simp add: chunk_file_fallthrough_def chunk_javascript_empty chunk_by_lines_def splitlines_def)

text \<open>
  C4, as stated, fails.  An empty content has no lines, and every strategy returns the empty
  list for it.  With a window of at most 20 lines the fallback does not return at all on a
  file that is longer than \<open>MAX_CHUNK_LINES\<close>.  And \<open>_chunk_python\<close> catches \<open>SyntaxError\<close> only:
  on 10000 minus signs followed by a digit \<open>ast.parse\<close> raises \<open>MemoryError\<close>, which leaves
  \<open>chunk_file\<close>.
\<close>

theorem chunk_file_empty_counterexample:
  "chunk_file default_settings (\<lambda>_. Parsed []) ''empty.py'' [] ''python'' = Some (Inr []) \<and>
   chunk_file default_settings (\<lambda>_. SyntaxError) ''empty.txt'' [] ''text'' = Some (Inr []) \<and>
   chunk_file \<lparr>MAX_CHUNK_LINES = 0, FALLBACK_CHUNK_LINES = 20, DEFAULT_TOP_K = 20\<rparr>
     (\<lambda>_. SyntaxError) ''a.txt'' ''x'' ''text'' = None \<and>
   chunk_file default_settings (\<lambda>_. ParseRaises MemoryError) ''deep.py''
     (replicate 10000 CHR ''-'' @ ''1'') ''python'' = Some (Inl MemoryError)"
proof -
  have "chunk_by_lines \<lparr>MAX_CHUNK_LINES = 0, FALLBACK_CHUNK_LINES = 20, DEFAULT_TOP_K = 20\<rparr> ''a.txt'' ''x'' ''text'' = None"
    by (rule chunk_by_lines_never_returns) (simp_all add: splitlines_def)
  moreover have "chunk_file default_settings (\<lambda>_. ParseRaises MemoryError) ''deep.py''
     (replicate 10000 CHR ''-'' @ ''1'') ''python'' = Some (Inl MemoryError)"
    by (simp add: chunk_file_def chunk_python_def Let_def)
  ultimately show ?thesis
    by (simp add: chunk_file_def chunk_file_fallthrough_def chunk_python_def chunk_by_lines_def
        splitlines_def python_preamble_def first_node_line_def)
qed

text \<open>
  C4, amended.  For every file path and language tag and every content that is not empty,
  \<open>chunk_file\<close> returns a list with at least one chunk, provided that the fallback can
  return (the window is greater than the overlap of 20 lines, or the file has at most
  \<open>MAX_CHUNK_LINES\<close> lines) and that, for the language \<open>python\<close>, the parser returns a tree or
  raises \<open>SyntaxError\<close>.  For the empty content, which the parser turns into the empty tree,
  \<open>chunk_file\<close> returns the empty list.
\<close>

theorem chunk_file_nonempty:
  "(content \<noteq> [] \<and>
    (20 < FALLBACK_CHUNK_LINES st \<or> int (length (splitlines content)) \<le> MAX_CHUNK_LINES st) \<and>
    (lang = ''python'' \<longrightarrow> (\<forall>e. ast_parse content \<noteq> ParseRaises e))
    \<longrightarrow> (\<exists>cs. chunk_file st ast_parse fp content lang = Some (Inr cs) \<and> cs \<noteq> [])) \<and>
   (content = [] \<and>
    (lang = ''python'' \<longrightarrow> ast_parse content = Parsed [] \<or> ast_parse content = SyntaxError)
    \<longrightarrow> chunk_file st ast_parse fp content lang = Some (Inr []))"
proof (intro conjI impI)
  assume a: "content \<noteq> [] \<and>
    (20 < FALLBACK_CHUNK_LINES st \<or> int (length (splitlines content)) \<le> MAX_CHUNK_LINES st) \<and>
    (lang = ''python'' \<longrightarrow> (\<forall>e. ast_parse content \<noteq> ParseRaises e))"
  hence ft: "\<exists>cs. chunk_file_fallthrough st fp content lang = Some (Inr cs) \<and> cs \<noteq> []"
    by (intro chunk_file_fallthrough_nonempty) simp_all
  show "\<exists>cs. chunk_file st ast_parse fp content lang = Some (Inr cs) \<and> cs \<noteq> []"
  proof (cases "lang = ''python''")
    case False
    with ft show ?thesis by (simp add: chunk_file_def)
  next
    case True
    show ?thesis
    proof (cases "chunk_python st ast_parse fp content")
      case (Inl e)
      hence "ast_parse content = ParseRaises e" by (simp add: chunk_python_raises_iff)
      with a True show ?thesis by blast
    next
      case (Inr chunks)
      with ft True show ?thesis by (cases "chunks = []") (simp_all add: chunk_file_def)
    qed
  qed
next
  assume b: "content = [] \<and>
    (lang = ''python'' \<longrightarrow> ast_parse content = Parsed [] \<or> ast_parse content = SyntaxError)"
  show "chunk_file st ast_parse fp content lang = Some (Inr [])"
  proof (cases "lang = ''python''")
    case False
    with b show ?thesis by (simp add: chunk_file_def chunk_file_fallthrough_empty)
  next
    case True
    with b have "chunk_python st ast_parse fp content = Inr []"
      by (auto simp: chunk_python_def Let_def python_preamble_def first_node_line_def)
    with b True show ?thesis by (simp add: chunk_file_def chunk_file_fallthrough_empty)
  qed
qed

theorem chunk_file_nonempty_witness:
  "(\<exists>cs. chunk_file default_settings (\<lambda>_. Parsed [OtherNode]) ''a.py'' ''x = 1'' ''python'' = Some (Inr cs) \<and> cs \<noteq> []) \<and>
   chunk_file default_settings (\<lambda>_. Parsed []) ''empty.py'' [] ''python'' = Some (Inr [])"
proof -
  have a: "''x = 1'' \<noteq> [] \<and>
    (20 < FALLBACK_CHUNK_LINES default_settings \<or>
       int (length (splitlines ''x = 1'')) \<le> MAX_CHUNK_LINES default_settings) \<and>
    (''python'' = ''python'' \<longrightarrow> (\<forall>e. (\<lambda>_. Parsed [OtherNode]) ''x = 1'' \<noteq> ParseRaises e))"
    by (simp add: default_settings_def)
  have b: "[] = ([] :: string) \<and>
    (''python'' = ''python'' \<longrightarrow> (\<lambda>_. Parsed []) ([] :: string) = Parsed [] \<or> (\<lambda>_. Parsed []) ([] :: string) = SyntaxError)"
    by simp
  from chunk_file_nonempty [where content = "''x = 1''" and st = default_settings and lang = "''python''"
      and ast_parse = "\<lambda>_. Parsed [OtherNode]" and fp = "''a.py''"] a
  have 1: "\<exists>cs. chunk_file default_settings (\<lambda>_. Parsed [OtherNode]) ''a.py'' ''x = 1'' ''python'' = Some (Inr cs) \<and> cs \<noteq> []"
    by blast
  from chunk_file_nonempty [where content = "[]" and st = default_settings and lang = "''python''"
      and ast_parse = "\<lambda>_. Parsed []" and fp = "''empty.py''"] b
  have 2: "chunk_file default_settings (\<lambda>_. Parsed []) ''empty.py'' [] ''python'' = Some (Inr [])"
    by blast
  from 1 2 show ?thesis by blast
qed

section \<open>The code of a chunk and the lines it names\<close>

text \<open>
  C2, as stated, fails in each strategy.  The fallback keeps a small file whole, with
  its final line terminator, which the lines joined by newlines do not have; the JS/TS
  strategy strips trailing white space (here the blank line between two functions) from the
  code of a chunk; the Python strategy strips the preamble.
\<close>

theorem chunk_code_counterexample:
  "chunk_file default_settings (\<lambda>_. SyntaxError) ''a.txt'' ''a\<newline>'' ''text'' =
     Some (Inr [\<lparr>file_path = ''a.txt'', symbol = ''<file>'', code = ''a\<newline>'', language = ''text'',
            start_line = 1, end_line = 1\<rparr>]) \<and>
   chunk_lines_text ''a\<newline>''
     \<lparr>file_path = ''a.txt'', symbol = ''<file>'', code = ''a\<newline>'', language = ''text'',
      start_line = 1, end_line = 1\<rparr> = ''a'' \<and>
   chunk_file default_settings (\<lambda>_. SyntaxError) ''a.js'' ''function a() {}\<newline>\<newline>function b() {}'' ''javascript'' =
     Some (Inr [\<lparr>file_path = ''a.js'', symbol = ''a'', code = ''function a() {}'', language = ''javascript'',
            start_line = 1, end_line = 2\<rparr>,
           \<lparr>file_path = ''a.js'', symbol = ''b'', code = ''function b() {}'', language = ''javascript'',
            start_line = 3, end_line = 3\<rparr>]) \<and>
   chunk_lines_text ''function a() {}\<newline>\<newline>function b() {}''
     \<lparr>file_path = ''a.js'', symbol = ''a'', code = ''function a() {}'', language = ''javascript'',
      start_line = 1, end_line = 2\<rparr> = ''function a() {}\<newline>'' \<and>
   chunk_file default_settings (\<lambda>_. Parsed [OtherNode, OtherNode, OtherNode, FunctionDef ''f'' 5 (Some 6)])
       ''a.py'' ''import a\<newline>import b\<newline>import c\<newline>\<newline>def f():\<newline> pass'' ''python'' =
     Some (Inr [\<lparr>file_path = ''a.py'', symbol = ''<module>'', code = ''import a\<newline>import b\<newline>import c'',
            language = ''python'', start_line = 1, end_line = 4\<rparr>,
           \<lparr>file_path = ''a.py'', symbol = ''f'', code = ''def f():\<newline> pass'', language = ''python'',
            start_line = 5, end_line = 6\<rparr>]) \<and>
   chunk_lines_text ''import a\<newline>import b\<newline>import c\<newline>\<newline>def f():\<newline> pass''
     \<lparr>file_path = ''a.py'', symbol = ''<module>'', code = ''import a\<newline>import b\<newline>import c'',
      language = ''python'', start_line = 1, end_line = 4\<rparr> = ''import a\<newline>import b\<newline>import c\<newline>''"
  by code_simp

subsection \<open>Symbols\<close>

lemma rx_group_at_word:
  assumes "rx_group_at r s = Some w"
  shows "w \<noteq> [] \<and> is_word (hd w)"
proof -
  from assms obtain rest where
    "filter (\<lambda>w. w \<noteq> []) (map (takeWhile is_word) (rx_match r s)) = w # rest"
    by (auto simp: rx_group_at_def split: list.splits)
  hence "w \<in> set (filter (\<lambda>w. w \<noteq> []) (map (takeWhile is_word) (rx_match r s)))"
    by (metis list.set_intros(1))
  then obtain t where w: "w = takeWhile is_word t" "w \<noteq> []" by auto
  hence "hd w \<in> set (takeWhile is_word t)" by simp
  hence "is_word (hd w)" by (rule set_takeWhileD [THEN conjunct2])
  with w show ?thesis by simp
qed

lemma rx_search_group_word:
  assumes "rx_search_group r s = Some w"
  shows "w \<noteq> [] \<and> is_word (hd w)"
  using assms
proof (induction s)
  case Nil
  then show ?case by (simp add: rx_group_at_word)
next
  case (Cons c cs)
  then show ?case by (auto simp: rx_group_at_word split: option.splits)
qed

lemma extract_js_symbol_shape:
  "extract_js_symbol line = ''<anonymous>'' \<or>
   (extract_js_symbol line \<noteq> [] \<and> is_word (hd (extract_js_symbol line)))"
  by (auto simp: extract_js_symbol_def rx_search_group_word split: option.splits)

lemma not_word_lt: "\<not> is_word CHR ''<''"
  by (simp add: is_word_def)

lemma js_symbol_plain:
  "extract_js_symbol line \<notin> {''<module>'', ''<imports>'', ''<file>''} \<and>
   take 7 (extract_js_symbol line) \<noteq> ''<block_''"
proof (cases "extract_js_symbol line = ''<anonymous>''")
  case True
  then show ?thesis by simp
next
  case False
  with extract_js_symbol_shape [of line]
  obtain h t where s: "extract_js_symbol line = h # t" and h: "is_word h"
    by (cases "extract_js_symbol line") auto
  from h not_word_lt have "h \<noteq> CHR ''<''" by auto
  thus ?thesis by (simp add: s)
qed

lemma dotted_symbol_plain: "a @ ''.'' @ b \<notin> {''<module>'', ''<imports>'', ''<file>''}"
proof -
  have "CHR ''.'' \<in> set (a @ ''.'' @ b)" by simp
  moreover have "CHR ''.'' \<notin> set ''<module>''" "CHR ''.'' \<notin> set ''<imports>''" "CHR ''.'' \<notin> set ''<file>''"
    by simp_all
  ultimately show ?thesis by (metis insertE singletonD)
qed

lemma identifier_plain:
  assumes "CHR ''<'' \<notin> set s"
  shows "s \<notin> {''<module>'', ''<imports>'', ''<file>''}"
  using assms by auto

lemma block_symbol: "''<block_'' @ n @ ''>'' \<notin> {''<module>'', ''<imports>'', ''<file>''}"
  "take 7 (''<block_'' @ n @ ''>'') = ''<block_''"
  by simp_all

subsection \<open>The three strategies\<close>

lemma python_preamble_rule:
  assumes "c \<in> set (python_preamble fp (splitlines content) nodes)"
  shows "code_rule lang content c"
  using assms
  by (auto simp: python_preamble_def code_rule_def chunk_lines_text_def Let_def split: option.splits if_splits)

lemma exact_rule:
  assumes "symbol c \<notin> {''<module>'', ''<imports>'', ''<file>''}"
    and "code c = chunk_lines_text content c"
  shows "code_rule ''python'' content c"
  using assms by (simp add: code_rule_def)

lemma line_chunk_exact:
  "code (line_chunk fp symb (splitlines content) s e) =
     chunk_lines_text content (line_chunk fp symb (splitlines content) s e)"
  "symbol (line_chunk fp symb (splitlines content) s e) = symb"
  by (simp_all add: line_chunk_def chunk_lines_text_def)

lemma split_class_rule:
  assumes "c \<in> set (split_class fp (splitlines content) nm start cs)"
  shows "code_rule ''python'' content c"
proof -
  from assms have "code c = chunk_lines_text content c \<and> (\<exists>b. symbol c = nm @ ''.'' @ b)"
    by (auto simp: split_class_def Let_def method_chunk_def line_chunk_exact chunk_lines_text_def
        split: if_splits)
  then obtain b where "code c = chunk_lines_text content c" "symbol c = nm @ ''.'' @ b" by blast
  thus ?thesis using dotted_symbol_plain [of nm b] by (intro exact_rule) simp_all
qed

lemma node_chunks_rule:
  assumes "c \<in> set (node_chunks st fp (splitlines content) node)"
    and "is_function_or_class node \<longrightarrow> CHR ''<'' \<notin> set (name node)"
  shows "code_rule ''python'' content c"
proof (cases node)
  case (FunctionDef nm s e)
  with assms show ?thesis
    by (intro exact_rule) (auto simp: line_chunk_exact dest: identifier_plain)
next
  case (AsyncFunctionDef nm s e)
  with assms show ?thesis
    by (intro exact_rule) (auto simp: line_chunk_exact dest: identifier_plain)
next
  case (ClassDef nm s e cs)
  show ?thesis
  proof (cases "end_or e s - s \<le> MAX_CHUNK_LINES st")
    case True
    with assms ClassDef show ?thesis
      by (intro exact_rule) (auto simp: line_chunk_exact dest: identifier_plain)
  next
    case False
    with assms ClassDef show ?thesis by (simp add: split_class_rule)
  qed
next
  case OtherNode
  with assms show ?thesis by simp
qed

lemma chunk_python_rule:
  assumes "chunk_python st ast_parse fp content = Inr cs" and "c \<in> set cs"
    and "\<forall>nodes n. ast_parse content = Parsed nodes \<and> n \<in> set nodes \<and> is_function_or_class n
           \<longrightarrow> CHR ''<'' \<notin> set (name n)"
  shows "code_rule ''python'' content c"
proof (cases "ast_parse content")
  case (Parsed nodes)
  with assms(1,2) consider "c \<in> set (python_preamble fp (splitlines content) nodes)"
    | n where "n \<in> set nodes" "c \<in> set (node_chunks st fp (splitlines content) n)"
    by (auto simp: chunk_python_def Let_def)
  then show ?thesis
  proof cases
    case 1
    then show ?thesis by (rule python_preamble_rule)
  next
    case 2
    from assms(3) Parsed 2(1) have "is_function_or_class n \<longrightarrow> CHR ''<'' \<notin> set (name n)" by blast
    with 2(2) show ?thesis by (rule node_chunks_rule)
  qed
next
  case SyntaxError
  with assms(1,2) show ?thesis by (simp add: chunk_python_def Let_def)
next
  case (ParseRaises e)
  with assms(1) show ?thesis by (simp add: chunk_python_def Let_def)
qed

lemma js_preamble_rule:
  assumes "c \<in> set (js_preamble fp lang' (splitlines content) first)"
  shows "code_rule lang content c"
  using assms by (auto simp: js_preamble_def code_rule_def chunk_lines_text_def Let_def split: if_splits)

lemma js_boundary_chunks_rule:
  assumes "c \<in> set (js_boundary_chunks fp lang' (splitlines content) bs)"
  shows "code c = rstrip (chunk_lines_text content c) \<and> symbol c \<in> snd ` set bs"
  using assms
proof (induction bs)
  case Nil
  then show ?case by simp
next
  case (Cons b bs)
  obtain i s where b: "b = (i, s)" by (cases b)
  from Cons show ?case
    by (auto simp: b Let_def chunk_lines_text_def split: if_splits)
qed

lemma js_boundaries_symbols:
  assumes "s \<in> snd ` set (js_boundaries lines)"
  shows "\<exists>line. s = extract_js_symbol line"
  using assms by (auto simp: js_boundaries_def)

lemma chunk_javascript_rule:
  assumes "c \<in> set (chunk_javascript fp content lang)" and "lang = ''javascript'' \<or> lang = ''typescript''"
  shows "code_rule lang content c"
proof -
  from assms(1) consider first where "c \<in> set (js_preamble fp lang (splitlines content) first)"
    | "c \<in> set (js_boundary_chunks fp lang (splitlines content) (js_boundaries (splitlines content)))"
    by (auto simp: chunk_javascript_def Let_def split: if_splits list.splits simp del: js_boundary_chunks.simps)
  then show ?thesis
  proof cases
    case 1
    then show ?thesis by (rule js_preamble_rule)
  next
    case 2
    from js_boundary_chunks_rule [OF 2]
    have code: "code c = rstrip (chunk_lines_text content c)"
      and "symbol c \<in> snd ` set (js_boundaries (splitlines content))" by simp_all
    then obtain line where "symbol c = extract_js_symbol line" using js_boundaries_symbols by blast
    with js_symbol_plain [of line]
    have "symbol c \<notin> {''<module>'', ''<imports>'', ''<file>''}" "take 7 (symbol c) \<noteq> ''<block_''"
      by simp_all
    with code assms(2) show ?thesis by (simp add: code_rule_def)
  qed
qed

lemma chunk_by_lines_rule:
  assumes "chunk_by_lines st fp content lang = Some cs" "c \<in> set cs"
  shows "code_rule lang content c"
proof (cases "splitlines content = [] \<or> int (length (splitlines content)) \<le> MAX_CHUNK_LINES st")
  case True
  with assms show ?thesis by (auto simp: chunk_by_lines_def Let_def code_rule_def split: if_splits)
next
  case False
  hence ne: "splitlines content \<noteq> []" and gt: "MAX_CHUNK_LINES st < int (length (splitlines content))" by simp_all
  have w: "20 < FALLBACK_CHUNK_LINES st"
  proof (rule ccontr)
    assume "\<not> 20 < FALLBACK_CHUNK_LINES st"
    hence "chunk_by_lines st fp content lang = None"
      using ne gt by (intro chunk_by_lines_never_returns) simp_all
    with assms(1) show False by simp
  qed
  from assms chunk_by_lines_windows [OF w ne gt, of fp lang]
  obtain j where c: "c = block_chunk fp lang (splitlines content) (FALLBACK_CHUNK_LINES st)
      (int j * (FALLBACK_CHUNK_LINES st - 20)) (int j)"
    by auto
  have "symbol c = ''<block_'' @ str_int (int j) @ ''>''" by (simp add: c block_chunk_def)
  moreover have "code c = chunk_lines_text content c" by (simp add: c block_chunk_def chunk_lines_text_def)
  ultimately show ?thesis using block_symbol [of "str_int (int j)"] by (simp add: code_rule_def)
qed

lemma chunk_file_fallthrough_rule:
  assumes "chunk_file_fallthrough st fp content lang = Some (Inr cs)" and "c \<in> set cs"
  shows "code_rule lang content c"
proof (cases "(lang = ''javascript'' \<or> lang = ''typescript'') \<and> chunk_javascript fp content lang \<noteq> []")
  case True
  with assms have "c \<in> set (chunk_javascript fp content lang)"
    unfolding chunk_file_fallthrough_def by simp
  with True show ?thesis by (intro chunk_javascript_rule) simp_all
next
  case False
  with assms(1) have "chunk_by_lines st fp content lang = Some cs"
    unfolding chunk_file_fallthrough_def by (auto simp: map_option_case split: option.splits)
  from chunk_by_lines_rule [OF this assms(2)] show ?thesis .
qed

lemma chunk_file_rule:
  assumes "chunk_file st ast_parse fp content lang = Some (Inr cs)" and "c \<in> set cs"
    and "\<forall>nodes n. lang = ''python'' \<and> ast_parse content = Parsed nodes \<and> n \<in> set nodes
           \<and> is_function_or_class n \<longrightarrow> CHR ''<'' \<notin> set (name n)"
  shows "code_rule lang content c"
proof (cases "lang = ''python''")
  case False
  with assms(1) have "chunk_file_fallthrough st fp content lang = Some (Inr cs)"
    by (simp add: chunk_file_def)
  from chunk_file_fallthrough_rule [OF this assms(2)] show ?thesis .
next
  case True
  show ?thesis
  proof (cases "chunk_python st ast_parse fp content")
    case (Inl e)
    with assms(1) True show ?thesis by (simp add: chunk_file_def)
  next
    case (Inr chunks)
    show ?thesis
    proof (cases "chunks = []")
      case True
      with assms(1) Inr \<open>lang = ''python''\<close>
      have "chunk_file_fallthrough st fp content lang = Some (Inr cs)" by (simp add: chunk_file_def)
      from chunk_file_fallthrough_rule [OF this assms(2)] show ?thesis .
    next
      case False
      with assms(1) Inr \<open>lang = ''python''\<close> have "cs = chunks" by (simp add: chunk_file_def)
      with Inr have run: "chunk_python st ast_parse fp content = Inr cs" by simp
      from assms(3) \<open>lang = ''python''\<close>
      have "\<forall>nodes n. ast_parse content = Parsed nodes \<and> n \<in> set nodes \<and> is_function_or_class n
           \<longrightarrow> CHR ''<'' \<notin> set (name n)" by blast
      from chunk_python_rule [OF run assms(2) this] \<open>lang = ''python''\<close> show ?thesis by simp
    qed
  qed
qed


text \<open>
  C2, amended.  For every chunk that \<open>chunk_file\<close> returns, with \<open>T\<close> the lines
  \<open>start_line\<close> to \<open>end_line\<close> of the content joined by newlines, and with the names that the
  parser gives to top-level functions and classes free of the character \<open><\<close>: the code of a
  preamble chunk (\<open><module>\<close>, \<open><imports>\<close>) is \<open>T\<close> stripped of white space at both ends; the
  code of the whole-file chunk (\<open><file>\<close>, lines 1 to the last) is the content itself; the
  code of a JS/TS declaration chunk (any other symbol than \<open><block_N>\<close>, for the languages
  \<open>javascript\<close> and \<open>typescript\<close>) is \<open>T\<close> stripped of trailing white space; the code of every
  other chunk (Python functions, classes, class headers and methods, and the windows
  \<open><block_N>\<close>) is \<open>T\<close>.
\<close>

theorem chunk_code_line_range:
  assumes "chunk_file st ast_parse fp content lang = Some (Inr cs)" and "c \<in> set cs"
    and "\<forall>nodes n. lang = ''python'' \<and> ast_parse content = Parsed nodes \<and> n \<in> set nodes
           \<and> is_function_or_class n \<longrightarrow> CHR ''<'' \<notin> set (name n)"
  shows "if symbol c = ''<module>'' \<or> symbol c = ''<imports>'' then
           code c = strip (chunk_lines_text content c)
         else if symbol c = ''<file>'' then
           code c = content \<and> start_line c = 1 \<and> end_line c = int (length (splitlines content))
         else if (lang = ''javascript'' \<or> lang = ''typescript'') \<and> take 7 (symbol c) \<noteq> ''<block_'' then
           code c = rstrip (chunk_lines_text content c)
         else code c = chunk_lines_text content c"
  using chunk_file_rule [OF assms] unfolding code_rule_def .

theorem chunk_code_line_range_witness:
  "code \<lparr>file_path = ''a.py'', symbol = ''<module>'', code = ''import a\<newline>import b\<newline>import c'',
          language = ''python'', start_line = 1, end_line = 4\<rparr> =
     strip (chunk_lines_text ''import a\<newline>import b\<newline>import c\<newline>\<newline>def f():\<newline> pass''
       \<lparr>file_path = ''a.py'', symbol = ''<module>'', code = ''import a\<newline>import b\<newline>import c'',
        language = ''python'', start_line = 1, end_line = 4\<rparr>) \<and>
   code \<lparr>file_path = ''a.js'', symbol = ''a'', code = ''function a() {}'', language = ''javascript'',
          start_line = 1, end_line = 2\<rparr> =
     rstrip (chunk_lines_text ''function a() {}\<newline>\<newline>function b() {}''
       \<lparr>file_path = ''a.js'', symbol = ''a'', code = ''function a() {}'', language = ''javascript'',
        start_line = 1, end_line = 2\<rparr>) \<and>
   code \<lparr>file_path = ''a.txt'', symbol = ''<file>'', code = ''a\<newline>'', language = ''text'',
          start_line = 1, end_line = 1\<rparr> = ''a\<newline>''"
proof -
  define c1 where "c1 = \<lparr>file_path = ''a.py'', symbol = ''<module>'', code = ''import a\<newline>import b\<newline>import c'',
          language = ''python'', start_line = 1, end_line = 4\<rparr>"
  define c1' where "c1' = \<lparr>file_path = ''a.py'', symbol = ''f'', code = ''def f():\<newline> pass'',
          language = ''python'', start_line = 5, end_line = 6\<rparr>"
  define p1 where "p1 = (\<lambda>_ :: string. Parsed [OtherNode, OtherNode, OtherNode, FunctionDef ''f'' 5 (Some 6)])"
  define t1 where "t1 = ''import a\<newline>import b\<newline>import c\<newline>\<newline>def f():\<newline> pass''"
  have run1: "chunk_file default_settings p1 ''a.py'' t1 ''python'' = Some (Inr [c1, c1'])"
    unfolding c1_def c1'_def p1_def t1_def by code_simp
  have names1: "\<forall>nodes n. ''python'' = ''python'' \<and> p1 t1 = Parsed nodes \<and> n \<in> set nodes
           \<and> is_function_or_class n \<longrightarrow> CHR ''<'' \<notin> set (name n)"
    by (auto simp: p1_def)
  have mem1: "c1 \<in> set [c1, c1']" by simp
  have s1: "symbol c1 = ''<module>''" by (simp add: c1_def)
  from chunk_code_line_range [OF run1 mem1 names1]
  have r1: "code c1 = strip (chunk_lines_text t1 c1)" by (simp only: s1 simp_thms if_True)
  define c2 where "c2 = \<lparr>file_path = ''a.js'', symbol = ''a'', code = ''function a() {}'', language = ''javascript'',
          start_line = 1, end_line = 2\<rparr>"
  define c2' where "c2' = \<lparr>file_path = ''a.js'', symbol = ''b'', code = ''function b() {}'', language = ''javascript'',
            start_line = 3, end_line = 3\<rparr>"
  define t2 where "t2 = ''function a() {}\<newline>\<newline>function b() {}''"
  have run2: "chunk_file default_settings (\<lambda>_. SyntaxError) ''a.js'' t2 ''javascript'' = Some (Inr [c2, c2'])"
    unfolding c2_def c2'_def t2_def by code_simp
  have names2: "\<forall>nodes n. ''javascript'' = ''python'' \<and> (\<lambda>_. SyntaxError) t2 = Parsed nodes \<and> n \<in> set nodes
           \<and> is_function_or_class n \<longrightarrow> CHR ''<'' \<notin> set (name n)"
    by simp
  have mem2: "c2 \<in> set [c2, c2']" by simp
  have s2: "symbol c2 = ''a''" by (simp add: c2_def)
  from chunk_code_line_range [OF run2 mem2 names2]
  have r2: "code c2 = rstrip (chunk_lines_text t2 c2)" by (simp add: s2)
  define c3 where "c3 = \<lparr>file_path = ''a.txt'', symbol = ''<file>'', code = ''a\<newline>'', language = ''text'',
          start_line = 1, end_line = 1\<rparr>"
  have run3: "chunk_file default_settings (\<lambda>_. SyntaxError) ''a.txt'' ''a\<newline>'' ''text'' = Some (Inr [c3])"
    unfolding c3_def by code_simp
  have names3: "\<forall>nodes n. ''text'' = ''python'' \<and> (\<lambda>_. SyntaxError) ''a\<newline>'' = Parsed nodes \<and> n \<in> set nodes
           \<and> is_function_or_class n \<longrightarrow> CHR ''<'' \<notin> set (name n)"
    by simp
  have mem3: "c3 \<in> set [c3]" by simp
  have s3: "symbol c3 = ''<file>''" by (simp add: c3_def)
  from chunk_code_line_range [OF run3 mem3 names3]
  have r3: "code c3 = ''a\<newline>''" by (simp add: s3)
  from r1 r2 r3 show ?thesis unfolding c1_def c2_def c3_def t1_def t2_def by blast
qed

section \<open>Chunks of a top-level Python class\<close>

text \<open>
  C6.  Two files on which the code does not do what the claim says, with
  \<open>MAX_CHUNK_LINES = 1\<close>.  In the first the class \<open>A\<close> has span 2 and must be split into a
  header chunk \<open>A.<header>\<close> and the chunk of its method \<open>f\<close>.  The file starts with a form
  feed, which is white space for the parser and a line boundary for \<open>splitlines\<close>: the parser
  numbers the class statement 1 and the method 2 to 3, while \<open>lines[0]\<close> is empty and the
  class statement is \<open>lines[1]\<close>.  The code reads the lines of the file by the numbers of the
  parser, so the header text is blank and no header chunk is made, and the chunk \<open>A.f\<close> holds
  the class statement and misses the last line of the method.  In the second the class \<open>B\<close>
  has two lines, more than the maximum, and is kept whole: the code compares
  \<open>end_lineno - lineno\<close>, which is 1, where the fallback compares the number of lines.
\<close>

theorem class_chunks_failing_input:
  "chunk_file \<lparr>MAX_CHUNK_LINES = 1, FALLBACK_CHUNK_LINES = 150, DEFAULT_TOP_K = 20\<rparr>
     (\<lambda>_. Parsed [ClassDef ''A'' 1 (Some 3) [FunctionDef ''f'' 2 (Some 3)]])
     ''a.py'' (CHR 0x0C # ''class A:\<newline> def f(self):\<newline>  pass'') ''python'' =
   Some (Inr [\<lparr>file_path = ''a.py'', symbol = ''A.f'', code = ''class A:\<newline> def f(self):'',
          language = ''python'', start_line = 2, end_line = 3\<rparr>]) \<and>
   chunk_file \<lparr>MAX_CHUNK_LINES = 1, FALLBACK_CHUNK_LINES = 150, DEFAULT_TOP_K = 20\<rparr>
     (\<lambda>_. Parsed [ClassDef ''B'' 1 (Some 2) [FunctionDef ''g'' 2 (Some 2)]])
     ''b.py'' ''class B:\<newline> def g(self): pass'' ''python'' =
   Some (Inr [\<lparr>file_path = ''b.py'', symbol = ''B'', code = ''class B:\<newline> def g(self): pass'',
          language = ''python'', start_line = 1, end_line = 2\<rparr>])"
  by code_simp

text \<open>
  What the code does for a top-level class in general: the chunks of the file contain, in the
  place of the class, the single chunk of the whole class when \<open>end_lineno - lineno\<close> is at
  most \<open>MAX_CHUNK_LINES\<close>; otherwise the header chunk, if its text is not blank, followed by
  one chunk per method that is a direct child of the class.
\<close>

lemma chunk_python_at:
  assumes "ast_parse content = Parsed nodes" and "p < length nodes"
  shows "chunk_python st ast_parse fp content =
     Inr ((python_preamble fp (splitlines content) nodes
        @ concat (map (node_chunks st fp (splitlines content)) (take p nodes)))
     @ node_chunks st fp (splitlines content) (nodes ! p)
     @ concat (map (node_chunks st fp (splitlines content)) (drop (Suc p) nodes)))"
proof -
  have "nodes = take p nodes @ nodes ! p # drop (Suc p) nodes"
    using assms(2) by (rule id_take_nth_drop)
  hence "concat (map (node_chunks st fp (splitlines content)) nodes) =
     concat (map (node_chunks st fp (splitlines content)) (take p nodes))
     @ node_chunks st fp (splitlines content) (nodes ! p)
     @ concat (map (node_chunks st fp (splitlines content)) (drop (Suc p) nodes))"
    by (metis concat.simps(2) concat_append list.simps(9) map_append)
  thus ?thesis by (simp add: chunk_python_def Let_def assms(1))
qed

lemma python_class_chunks:
  assumes "ast_parse content = Parsed nodes"
    and "p < length nodes"
    and "nodes ! p = ClassDef nm start e cs"
  shows "\<exists>pre part post.
     chunk_python st ast_parse fp content = Inr (pre @ part @ post) \<and>
     (end_or e start - start \<le> MAX_CHUNK_LINES st \<longrightarrow>
        part = [\<lparr>file_path = fp, symbol = nm,
                 code = join_nl (py_slice (splitlines content) (start - 1) (end_or e start)),
                 language = ''python'', start_line = start, end_line = end_or e start\<rparr>]) \<and>
     (MAX_CHUNK_LINES st < end_or e start - start \<longrightarrow>
        part =
          (if strip (join_nl (py_slice (splitlines content) (start - 1) (class_header_end start cs))) = []
           then []
           else [\<lparr>file_path = fp, symbol = nm @ ''.<header>'',
                   code = join_nl (py_slice (splitlines content) (start - 1) (class_header_end start cs)),
                   language = ''python'', start_line = start, end_line = class_header_end start cs\<rparr>])
          @ map (\<lambda>child.
                  \<lparr>file_path = fp, symbol = nm @ ''.'' @ name child,
                   code = join_nl (py_slice (splitlines content) (lineno child - 1)
                                    (end_or (end_lineno child) (lineno child))),
                   language = ''python'', start_line = lineno child,
                   end_line = end_or (end_lineno child) (lineno child)\<rparr>)
                (filter is_function cs))"
proof -
  let ?part = "node_chunks st fp (splitlines content) (nodes ! p)"
  have whole: "end_or e start - start \<le> MAX_CHUNK_LINES st \<Longrightarrow>
        ?part = [\<lparr>file_path = fp, symbol = nm,
                 code = join_nl (py_slice (splitlines content) (start - 1) (end_or e start)),
                 language = ''python'', start_line = start, end_line = end_or e start\<rparr>]"
    by (simp add: assms(3) line_chunk_def)
  have split: "MAX_CHUNK_LINES st < end_or e start - start \<Longrightarrow>
        ?part =
          (if strip (join_nl (py_slice (splitlines content) (start - 1) (class_header_end start cs))) = []
           then []
           else [\<lparr>file_path = fp, symbol = nm @ ''.<header>'',
                   code = join_nl (py_slice (splitlines content) (start - 1) (class_header_end start cs)),
                   language = ''python'', start_line = start, end_line = class_header_end start cs\<rparr>])
          @ map (\<lambda>child.
                  \<lparr>file_path = fp, symbol = nm @ ''.'' @ name child,
                   code = join_nl (py_slice (splitlines content) (lineno child - 1)
                                    (end_or (end_lineno child) (lineno child))),
                   language = ''python'', start_line = lineno child,
                   end_line = end_or (end_lineno child) (lineno child)\<rparr>)
                (filter is_function cs)"
    by (simp add: assms(3) split_class_def Let_def method_chunk_def line_chunk_def)
  from chunk_python_at [where ast_parse = ast_parse and content = content, OF assms(1,2)] whole split
  show ?thesis by blast
qed

section \<open>The context block\<close>



end
